theory Spec2Isabelle
  imports Main "HOL-Library.Multiset" "HOL-Library.Log_Nat"
begin

section \<open>Python strings\<close>

text \<open>
  A Python \<open>str\<close> is a sequence of Unicode code points and \<open>len\<close> counts code points,
  so a string is modelled as the list of its code points. ASCII literals are written
  through \<open>u\<close>.
\<close>

type_synonym ustr = "nat list"

definition u :: "string \<Rightarrow> ustr" where
  "u s = map of_char s"

text \<open>\<open>str.isspace\<close> for one code point: the whitespace table of CPython 3.\<close>

definition py_isspace :: "nat \<Rightarrow> bool" where
  "py_isspace c \<longleftrightarrow>
     (9 \<le> c \<and> c \<le> 13) \<or> (28 \<le> c \<and> c \<le> 32) \<or> c = 133 \<or> c = 160 \<or> c = 5760 \<or>
     (8192 \<le> c \<and> c \<le> 8202) \<or> c = 8232 \<or> c = 8233 \<or> c = 8239 \<or> c = 8287 \<or>
     c = 12288"

text \<open>\<open>s.strip()\<close>: whitespace removed at both ends.\<close>

definition strip :: "ustr \<Rightarrow> ustr" where
  "strip s = rev (dropWhile py_isspace (rev (dropWhile py_isspace s)))"

text \<open>
  \<open>s.split('\n')\<close> and \<open>s.split('\n\n')\<close>: the separator is searched from the left, the
  pieces between occurrences are returned, and the result always has at least one piece.
  The first argument is the piece read so far.
\<close>

fun split_nl :: "ustr \<Rightarrow> ustr \<Rightarrow> ustr list" where
  "split_nl cur [] = [cur]"
| "split_nl cur (c # cs) = (if c = 10 then cur # split_nl [] cs else split_nl (cur @ [c]) cs)"

fun split_nlnl :: "ustr \<Rightarrow> ustr \<Rightarrow> ustr list" where
  "split_nlnl cur [] = [cur]"
| "split_nlnl cur [c] = [cur @ [c]]"
| "split_nlnl cur (c # d # cs) =
     (if c = 10 \<and> d = 10 then cur # split_nlnl [] cs else split_nlnl (cur @ [c]) (d # cs))"

text \<open>\<open>sep.join(xs)\<close>.\<close>

fun join :: "ustr \<Rightarrow> ustr list \<Rightarrow> ustr" where
  "join sep [] = []"
| "join sep [x] = x"
| "join sep (x # y # ys) = x @ sep @ join sep (y # ys)"

text \<open>\<open>str(n)\<close> for a non-negative integer, and the format specs \<open>02d\<close> and \<open>03d\<close>:
  the decimal digits, padded on the left with zeros up to the minimum width.\<close>

fun decimal :: "nat \<Rightarrow> ustr" where
  "decimal n = (if n < 10 then [48 + n] else decimal (n div 10) @ [48 + n mod 10])"

definition fmt_0wd :: "nat \<Rightarrow> nat \<Rightarrow> ustr" where
  "fmt_0wd w n = replicate (w - length (decimal n)) 48 @ decimal n"

section \<open>Subtitle formatter: \<open>convert_srt_to_lrc\<close>\<close>

datatype py_error = TypeError

text \<open>
  The regular expression \<open>(\d{2}):(\d{2}):(\d{2}),(\d{3})\<close>. In a \<open>str\<close> pattern \<open>\d\<close>
  matches every Unicode decimal digit and \<open>int\<close> reads them by their digit value; the
  table of decimal digits belongs to the Unicode database of the interpreter, so it is a
  parameter \<open>dv\<close>: the digit value of a code point, \<open>None\<close> when it is not a decimal digit.
  \<open>ascii_digit\<close> is its restriction to \<open>0\<close>..\<open>9\<close>.
\<close>

type_synonym digits = "nat \<Rightarrow> nat option"

definition ascii_digit :: digits where
  "ascii_digit c = (if 48 \<le> c \<and> c \<le> 57 then Some (c - 48) else None)"

definition int2 :: "digits \<Rightarrow> nat \<Rightarrow> nat \<Rightarrow> nat option" where
  "int2 dv a b =
     (case dv a of None \<Rightarrow> None
      | Some x \<Rightarrow> (case dv b of None \<Rightarrow> None | Some y \<Rightarrow> Some (10 * x + y)))"

definition int3 :: "digits \<Rightarrow> nat \<Rightarrow> nat \<Rightarrow> nat \<Rightarrow> nat option" where
  "int3 dv a b c =
     (case int2 dv a b of None \<Rightarrow> None
      | Some x \<Rightarrow> (case dv c of None \<Rightarrow> None | Some y \<Rightarrow> Some (10 * x + y)))"

text \<open>The pattern matched at the head of the string; the groups as integers.\<close>

fun match_time :: "digits \<Rightarrow> ustr \<Rightarrow> (nat \<times> nat \<times> nat \<times> nat) option" where
  "match_time dv (h1 # h2 # c1 # m1 # m2 # c2 # s1 # s2 # c3 # f1 # f2 # f3 # rest) =
     (if c1 = 58 \<and> c2 = 58 \<and> c3 = 44 then
        (case int2 dv h1 h2 of None \<Rightarrow> None
         | Some hours \<Rightarrow>
        (case int2 dv m1 m2 of None \<Rightarrow> None
         | Some minutes \<Rightarrow>
        (case int2 dv s1 s2 of None \<Rightarrow> None
         | Some seconds \<Rightarrow>
        (case int3 dv f1 f2 f3 of None \<Rightarrow> None
         | Some milliseconds \<Rightarrow> Some (hours, minutes, seconds, milliseconds)))))
      else None)"
| "match_time dv s = None"

text \<open>\<open>re.search\<close>: the leftmost position where the pattern matches.\<close>

fun re_search :: "digits \<Rightarrow> ustr \<Rightarrow> (nat \<times> nat \<times> nat \<times> nat) option" where
  "re_search dv [] = None"
| "re_search dv (c # cs) =
     (case match_time dv (c # cs) of Some g \<Rightarrow> Some g | None \<Rightarrow> re_search dv cs)"

text \<open>One iteration of the loop over the blocks: the item it appends, if any.\<close>

definition block_item :: "digits \<Rightarrow> ustr \<Rightarrow> (nat \<times> ustr) option" where
  "block_item dv block =
     (let lines = split_nl [] block in
      if length lines \<ge> 3 \<and> strip (lines ! 1) \<noteq> [] then
        (let time_line = lines ! 1; text_line = lines ! 2 in
         case re_search dv time_line of
           Some (hours, minutes, seconds, milliseconds) \<Rightarrow>
             Some ((hours * 3600 + minutes * 60 + seconds) * 1000 + milliseconds, text_line)
         | None \<Rightarrow> None)
      else None)"

fun collect_items :: "digits \<Rightarrow> ustr list \<Rightarrow> (nat \<times> ustr) list \<Rightarrow> (nat \<times> ustr) list" where
  "collect_items dv [] all_items = all_items"
| "collect_items dv (block # blocks) all_items =
     (case block_item dv block of
        Some item \<Rightarrow> collect_items dv blocks (all_items @ [item])
      | None \<Rightarrow> collect_items dv blocks all_items)"

text \<open>
  The merge loop. \<open>current_time\<close> starts as \<open>None\<close>; \<open>rest = []\<close> is the test
  \<open>i == len(all_items) - 1\<close>. \<open>chars_per_line\<close> is whatever integer the caller passes.
\<close>

fun merge_loop ::
  "int \<Rightarrow> (nat \<times> ustr) list \<Rightarrow> ustr \<Rightarrow> nat option \<Rightarrow> (nat option \<times> ustr) list
     \<Rightarrow> (nat option \<times> ustr) list" where
  "merge_loop chars_per_line [] current_text current_time merged_items = merged_items"
| "merge_loop chars_per_line ((time_ms, text) # rest) current_text current_time merged_items =
     (let current_time = (if current_text = [] then Some time_ms else current_time);
          current_text = current_text @ text
      in if int (length current_text) \<ge> chars_per_line \<or> rest = [] then
           merge_loop chars_per_line rest [] current_time
             (if current_text \<noteq> [] then merged_items @ [(current_time, current_text)]
              else merged_items)
         else merge_loop chars_per_line rest current_text current_time merged_items)"

definition merge_items :: "int \<Rightarrow> (nat \<times> ustr) list \<Rightarrow> (nat option \<times> ustr) list" where
  "merge_items chars_per_line all_items = merge_loop chars_per_line all_items [] None []"

text \<open>One rendered line; arithmetic on a \<open>None\<close> time would raise \<open>TypeError\<close>.\<close>

definition lrc_time :: "nat \<Rightarrow> ustr" where
  "lrc_time time_ms =
     (let minutes = (time_ms div 1000) div 60;
          seconds = (time_ms div 1000) mod 60;
          milliseconds = (time_ms mod 1000) div 10
      in u ''['' @ fmt_0wd 2 minutes @ u '':'' @ fmt_0wd 2 seconds @ u ''.''
           @ fmt_0wd 2 milliseconds @ u '']'')"

fun render_lines :: "(nat option \<times> ustr) list \<Rightarrow> py_error + ustr list" where
  "render_lines [] = Inr []"
| "render_lines ((None, text) # rest) = Inl TypeError"
| "render_lines ((Some time_ms, text) # rest) =
     (case render_lines rest of
        Inl e \<Rightarrow> Inl e
      | Inr lrc_lines \<Rightarrow> Inr ((lrc_time time_ms @ text) # lrc_lines))"

definition srt_blocks :: "ustr \<Rightarrow> ustr list" where
  "srt_blocks srt_content = split_nlnl [] (strip srt_content)"

text \<open>\<open>all_items.sort(key=lambda x: x[0])\<close>: the sort of a Python list is stable.\<close>

definition sort_items :: "(nat \<times> ustr) list \<Rightarrow> (nat \<times> ustr) list" where
  "sort_items all_items = sort_key fst all_items"

text \<open>
  The function from the sort on, for the items that the loop over the blocks has
  collected: the sort, the early return on no item, the merge loop and the rendering.
\<close>

definition lrc_of_items :: "int \<Rightarrow> (nat \<times> ustr) list \<Rightarrow> py_error + ustr" where
  "lrc_of_items chars_per_line all_items =
     (let all_items = sort_items all_items in
      if all_items = [] then Inr []
      else (case render_lines (merge_items chars_per_line all_items) of
              Inl e \<Rightarrow> Inl e
            | Inr lrc_lines \<Rightarrow> Inr (join [10] lrc_lines)))"

text \<open>The items after the sort, the function from the list of blocks on, and the
  function itself.\<close>

definition sorted_items :: "digits \<Rightarrow> ustr list \<Rightarrow> (nat \<times> ustr) list" where
  "sorted_items dv blocks = sort_items (collect_items dv blocks [])"

definition convert_blocks :: "digits \<Rightarrow> ustr list \<Rightarrow> int \<Rightarrow> py_error + ustr" where
  "convert_blocks dv blocks chars_per_line =
     lrc_of_items chars_per_line (collect_items dv blocks [])"

definition convert_srt_to_lrc :: "digits \<Rightarrow> ustr \<Rightarrow> int \<Rightarrow> py_error + ustr" where
  "convert_srt_to_lrc dv srt_content chars_per_line =
     convert_blocks dv (srt_blocks srt_content) chars_per_line"

section \<open>Retrying synthesis job: \<open>process_text_to_mp3\<close>\<close>

text \<open>
  An exception is the value it carries. The speech provider, the file system and the
  subtitle maker are outside the program: what one attempt meets there is given by the
  environment, either an exception raised somewhere in the \<open>try\<close> body (creating the
  client, the directory or the audio file, streaming, writing the subtitle file) or the
  SRT text that \<open>submaker.get_srt()\<close> returns once the stream has been written.
\<close>

datatype exn = Exn ustr

datatype attempt_result = Raises exn | Completes ustr

type_synonym path = "ustr \<times> ustr"

datatype job_event =
    Warn_empty_text
  | Communicate ustr ustr
  | Write_audio path
  | Write_lrc path ustr
  | Attempt_failed nat nat exn
  | Waiting nat
  | Sleep nat
  | Retries_exhausted nat exn
  | Print_traceback

definition DEFAULT_CHARS_PER_LINE :: int where
  "DEFAULT_CHARS_PER_LINE = 15"

definition MAX_RETRIES :: nat where
  "MAX_RETRIES = 3"

definition RETRY_DELAY_SECONDS :: nat where
  "RETRY_DELAY_SECONDS = 5"

definition LYRIC_LANG :: ustr where
  "LYRIC_LANG = u ''zho''"

text \<open>The \<open>except\<close> branch of attempt number \<open>attempt\<close> (counted from 0).\<close>

definition on_exception :: "nat \<Rightarrow> nat \<Rightarrow> exn \<Rightarrow> job_event list" where
  "on_exception attempt max_retries e =
     (if int attempt < int max_retries - 1 then
        [Attempt_failed (attempt + 1) max_retries e, Waiting RETRY_DELAY_SECONDS,
         Sleep RETRY_DELAY_SECONDS]
      else [Retries_exhausted max_retries e, Print_traceback])"

text \<open>
  The loop \<open>for attempt in range(max_retries)\<close> over the attempts still to make. The
  result is the returned boolean with the events in the order they happen.
\<close>

fun attempts ::
  "digits \<Rightarrow> (nat \<Rightarrow> attempt_result) \<Rightarrow> ustr \<Rightarrow> path \<Rightarrow> path \<Rightarrow> ustr \<Rightarrow> int \<Rightarrow> nat
     \<Rightarrow> nat list \<Rightarrow> bool \<times> job_event list" where
  "attempts dv env text output_audio output_lrc voice chars_per_line max_retries [] =
     (False, [])"
| "attempts dv env text output_audio output_lrc voice chars_per_line max_retries
     (attempt # later) =
     (if text = [] \<or> strip text = [] then (False, [Warn_empty_text])
      else
        (case env attempt of
           Completes srt_content \<Rightarrow>
             (case convert_srt_to_lrc dv srt_content chars_per_line of
                Inr lrc_content \<Rightarrow>
                  (True, [Communicate text voice, Write_audio output_audio,
                          Write_lrc output_lrc lrc_content])
              | Inl err \<Rightarrow>
                  (let (result, events) =
                     attempts dv env text output_audio output_lrc voice chars_per_line
                       max_retries later
                   in (result, [Communicate text voice, Write_audio output_audio]
                         @ on_exception attempt max_retries (Exn (u ''TypeError'')) @ events)))
         | Raises e \<Rightarrow>
             (let (result, events) =
                attempts dv env text output_audio output_lrc voice chars_per_line
                  max_retries later
              in (result, [Communicate text voice] @ on_exception attempt max_retries e
                    @ events))))"

definition process_text_to_mp3 ::
  "digits \<Rightarrow> (nat \<Rightarrow> attempt_result) \<Rightarrow> ustr \<Rightarrow> path \<Rightarrow> path \<Rightarrow> ustr \<Rightarrow> int \<Rightarrow> nat
     \<Rightarrow> bool \<times> job_event list" where
  "process_text_to_mp3 dv env text output_audio output_lrc voice chars_per_line max_retries =
     attempts dv env text output_audio output_lrc voice chars_per_line max_retries
       [0..<max_retries]"

text \<open>Kinds of events, for counting them.\<close>

fun is_communicate :: "job_event \<Rightarrow> bool" where
  "is_communicate (Communicate text voice) = True"
| "is_communicate ev = False"

fun is_sleep :: "job_event \<Rightarrow> bool" where
  "is_sleep (Sleep seconds) = True"
| "is_sleep ev = False"

fun is_failure_log :: "job_event \<Rightarrow> bool" where
  "is_failure_log (Attempt_failed attempt max_retries e) = True"
| "is_failure_log (Retries_exhausted max_retries e) = True"
| "is_failure_log ev = False"

section \<open>Metadata tagger: \<open>update_mp3_tag\<close>\<close>

text \<open>
  What the tag library and the file system answer: whether opening the audio file
  raises, whether the subtitle file exists and what reading it gives, whether saving
  raises.
\<close>

record tag_env =
  load_raises :: "exn option"
  lrc_file :: "(exn + ustr) option"
  save_raises :: "exn option"

datatype frame =
    APIC ustr "nat list"
  | TIT2 ustr
  | TPE1 ustr
  | TALB ustr
  | USLT ustr ustr

datatype tag_event = Tags_saved "frame list" | Tag_error_printed exn | Tag_traceback

definition mime_type :: "nat list \<Rightarrow> ustr" where
  "mime_type cover_data =
     (if take 4 cover_data = [137, 80, 78, 71] then u ''image/png''
      else if take 4 cover_data = [71, 73, 70, 56] then u ''image/gif''
      else u ''image/jpeg'')"

text \<open>The \<open>try\<close> body: the frames saved, or the exception that leaves it.\<close>

definition tag_body ::
  "tag_env \<Rightarrow> nat list option \<Rightarrow> ustr \<Rightarrow> ustr \<Rightarrow> ustr \<Rightarrow> ustr \<Rightarrow> exn + frame list" where
  "tag_body env cover_data title artist album lyric_lang =
     (case load_raises env of
        Some e \<Rightarrow> Inl e
      | None \<Rightarrow>
          (let cover = (case cover_data of
                          None \<Rightarrow> []
                        | Some bytes \<Rightarrow> if bytes = [] then [] else [APIC (mime_type bytes) bytes]);
               tags = cover @ [TIT2 title, TPE1 artist, TALB album]
           in case lrc_file env of
                Some (Inl e) \<Rightarrow> Inl e
              | lrc \<Rightarrow>
                  (let tags = (case lrc of
                                 Some (Inr lrc_content) \<Rightarrow> tags @ [USLT lyric_lang lrc_content]
                               | _ \<Rightarrow> tags)
                   in case save_raises env of Some e \<Rightarrow> Inl e | None \<Rightarrow> Inr tags)))"

definition update_mp3_tag ::
  "tag_env \<Rightarrow> nat list option \<Rightarrow> ustr \<Rightarrow> ustr \<Rightarrow> ustr \<Rightarrow> bool \<times> tag_event list" where
  "update_mp3_tag env cover_data title artist album =
     (case tag_body env cover_data title artist album LYRIC_LANG of
        Inr tags \<Rightarrow> (True, [Tags_saved tags])
      | Inl e \<Rightarrow> (False, [Tag_error_printed e, Tag_traceback]))"

section \<open>Conversion orchestrator\<close>

subsection \<open>Events\<close>

text \<open>
  The messages put on \<open>message_queue\<close>; each constructor is one message text of the
  source and carries the values formatted into it (elapsed times are left out). An
  effect is anything a worker thread does that another component observes, in order.
\<close>

datatype log_msg =
    Start_chapter ustr
  | Generating_mp3
  | Mp3_done_adding_tags
  | Finished_file ustr
  | Elapsed_time
  | Id3_tag_failed
  | Mp3_failed
  | Conversion_raised exn
  | Start_ebook nat
  | Skip_empty_chapter ustr
  | Processing_chapter ustr
  | Chapter_done ustr
  | Chapter_generated_tag_failed ustr
  | Chapter_failed ustr
  | All_chapters_done
  | Total_elapsed_time
  | Batch_raised exn
  | Cover_read_failed exn

datatype status_msg =
    Converting ustr
  | Conversion_complete
  | Partly_complete_tag_failed
  | Conversion_failed
  | Status_raised exn
  | Processing_count nat nat
  | Batch_complete nat nat
  | Batch_status_raised exn

datatype queue_msg = Log log_msg | Status status_msg | Progress int

datatype button = Convert_chapter_button | Generate_ebook_button

datatype dialog =
    Error_select_chapter
  | Error_select_valid_chapter
  | Error_index_invalid
  | Error_no_content ustr
  | Ask_directory
  | Ask_confirm
  | Warning_busy
  | Error_no_chapters
  | Ask_open_directory
  | Error_conversion_failed
  | Error_raised exn

datatype effect =
    Put queue_msg
  | Set_processing bool
  | Enable button bool
  | Show dialog
  | Job job_event
  | Tagger tag_event

subsection \<open>Chapters and file names\<close>

text \<open>
  A chapter is a dictionary read with \<open>.get\<close>: a key may be missing. A path is kept as
  the pair that \<open>os.path.join\<close> receives, directory and file name.
\<close>

record chapter_dict =
  ch_title :: "ustr option"
  ch_content :: "ustr option"

text \<open>\<open>re.sub(r'[\\/*?:"<>|]', "", title)\<close>.\<close>

definition illegal_char :: "nat \<Rightarrow> bool" where
  "illegal_char c \<longleftrightarrow> c \<in> set (u [CHR 0x5C, CHR ''/'', CHR ''*'', CHR ''?'', CHR '':'',
                                    CHR 0x22, CHR ''<'', CHR ''>'', CHR ''|''])"

definition strip_illegal :: "ustr \<Rightarrow> ustr" where
  "strip_illegal title = filter (\<lambda>c. \<not> illegal_char c) title"

text \<open>The two code points of the word for chapter that the placeholder names start with.\<close>

definition zhangjie :: ustr where
  "zhangjie = [31456, 33410]"

definition batch_safe_title :: "ustr \<Rightarrow> nat \<Rightarrow> ustr" where
  "batch_safe_title title i =
     (let safe_title = strip_illegal title;
          safe_title = (if safe_title = [] then zhangjie @ decimal i else safe_title)
      in if length safe_title > 200 then take 197 safe_title @ u ''...'' else safe_title)"

definition single_safe_title :: "ustr \<Rightarrow> nat \<Rightarrow> ustr" where
  "single_safe_title title index =
     (let safe_title = strip_illegal title
      in if safe_title = [] then zhangjie @ decimal (index + 1) else safe_title)"

subsection \<open>Progress percentage\<close>

text \<open>
  \<open>int((i - 1) / len(chapters) * 100)\<close> is computed in binary64 floating point: the
  quotient of the two integers is rounded to the nearest double (ties to even), the
  product with 100 is rounded again, and \<open>int\<close> truncates. A double is kept as mantissa
  and exponent, \<open>(m, e)\<close> standing for \<open>m * 2 ^ e\<close>; the quantities here lie far inside
  the normal range, so exponents are not bounded.
\<close>

definition round_half_even :: "int \<Rightarrow> int \<Rightarrow> int" where
  "round_half_even p q =
     (let f = p div q; r = 2 * (p mod q)
      in if r < q then f else if r > q then f + 1 else if even f then f else f + 1)"

text \<open>The integer \<open>k\<close> with \<open>2 ^ k \<le> p / q < 2 ^ (k + 1)\<close>, for positive \<open>p\<close> and \<open>q\<close>.\<close>

definition binade :: "int \<Rightarrow> int \<Rightarrow> int" where
  "binade p q =
     (let d = bitlen p - bitlen q
      in if q * 2 ^ nat d \<le> p * 2 ^ nat (- d) then d else d - 1)"

text \<open>The double nearest to \<open>p / q\<close>, for \<open>p \<ge> 0\<close> and \<open>q > 0\<close>: 53 significant bits.\<close>

definition round_double :: "int \<Rightarrow> int \<Rightarrow> int \<times> int" where
  "round_double p q =
     (if p = 0 then (0, 0)
      else (let e = binade p q - 52
            in (round_half_even (p * 2 ^ nat (- e)) (q * 2 ^ nat e), e)))"

definition float_div :: "int \<Rightarrow> int \<Rightarrow> int \<times> int" where
  "float_div a b = round_double a b"

definition float_mul_100 :: "int \<times> int \<Rightarrow> int \<times> int" where
  "float_mul_100 x = (case x of (m, e) \<Rightarrow> round_double (100 * m * 2 ^ nat e) (2 ^ nat (- e)))"

definition float_int :: "int \<times> int \<Rightarrow> int" where
  "float_int x = (case x of (m, e) \<Rightarrow> (m * 2 ^ nat e) div 2 ^ nat (- e))"

definition progress_pct :: "nat \<Rightarrow> nat \<Rightarrow> int" where
  "progress_pct i total_count =
     float_int (float_mul_100 (float_div (int i - 1) (int total_count)))"

subsection \<open>Single chapter: \<open>_convert_single_chapter_thread\<close>\<close>

record single_params =
  chapter_title :: ustr
  content :: ustr
  output_mp3 :: path
  output_lrc :: path
  voice :: ustr
  chars_per_line :: int
  artist :: ustr
  album :: ustr

text \<open>
  \<open>cover\<close> is what the block that reads the cover image gives: the bytes, no cover, or
  the exception of the file read, which leaves the \<open>try\<close> body. The \<open>finally\<close> clause
  runs on every path.
\<close>

definition convert_single_chapter_thread ::
  "digits \<Rightarrow> exn + nat list option \<Rightarrow> (nat \<Rightarrow> attempt_result) \<Rightarrow> tag_env \<Rightarrow> single_params
     \<Rightarrow> effect list" where
  "convert_single_chapter_thread dv cover job_env tag_env params =
     [Put (Log (Start_chapter (chapter_title params))),
      Put (Status (Converting (chapter_title params))),
      Put (Progress 0),
      Set_processing True,
      Enable Convert_chapter_button False]
     @ (case cover of
          Inl e \<Rightarrow>
            [Put (Log (Conversion_raised e)), Put (Status (Status_raised e)),
             Show (Error_raised e)]
        | Inr cover_data \<Rightarrow>
            [Put (Log Generating_mp3)]
            @ (let (result, events) =
                     process_text_to_mp3 dv job_env (content params) (output_mp3 params)
                       (output_lrc params) (voice params) (chars_per_line params) MAX_RETRIES
               in map Job events
                  @ (if result then
                       [Put (Progress 80), Put (Log Mp3_done_adding_tags)]
                       @ (let (tagged, tag_events) =
                                update_mp3_tag tag_env cover_data (chapter_title params)
                                  (artist params) (album params)
                          in map Tagger tag_events
                             @ (if tagged then
                                  [Put (Progress 100),
                                   Put (Log (Finished_file (snd (output_mp3 params)))),
                                   Put (Log Elapsed_time),
                                   Put (Status Conversion_complete),
                                   Show Ask_open_directory]
                                else
                                  [Put (Log Id3_tag_failed),
                                   Put (Status Partly_complete_tag_failed)]))
                     else
                       [Put (Log Mp3_failed), Put (Status Conversion_failed),
                        Show Error_conversion_failed])))
     @ [Set_processing False, Enable Convert_chapter_button True]"

subsection \<open>Batch: \<open>_generate_ebook_thread\<close>\<close>

record batch_params =
  output_dir :: ustr
  chapters :: "chapter_dict list"
  batch_voice :: ustr
  batch_chars_per_line :: int
  batch_artist :: ustr
  batch_album :: ustr
  cover_data :: "nat list option"

definition batch_title :: "chapter_dict \<Rightarrow> nat \<Rightarrow> ustr" where
  "batch_title chapter i = (case ch_title chapter of Some t \<Rightarrow> t | None \<Rightarrow> zhangjie @ decimal i)"

definition get_content :: "chapter_dict \<Rightarrow> ustr" where
  "get_content chapter = (case ch_content chapter of Some c \<Rightarrow> c | None \<Rightarrow> [])"

definition batch_output_mp3 :: "batch_params \<Rightarrow> nat \<Rightarrow> chapter_dict \<Rightarrow> path" where
  "batch_output_mp3 params i chapter =
     (output_dir params,
      fmt_0wd 3 i @ u ''-'' @ batch_safe_title (batch_title chapter i) i @ u ''.mp3'')"

definition batch_output_lrc :: "batch_params \<Rightarrow> nat \<Rightarrow> chapter_dict \<Rightarrow> path" where
  "batch_output_lrc params i chapter =
     (output_dir params,
      fmt_0wd 3 i @ u ''-'' @ batch_safe_title (batch_title chapter i) i @ u ''.lrc'')"

text \<open>
  The body of the loop for the chapter numbered \<open>i\<close> (from 1). \<open>job_env i\<close> and
  \<open>tag_env i\<close> are what the job and the tagger of that chapter meet. Both calls return a
  boolean and raise nothing, so the body has no path that leaves the loop.
\<close>

definition chapter_step ::
  "digits \<Rightarrow> (nat \<Rightarrow> nat \<Rightarrow> attempt_result) \<Rightarrow> (nat \<Rightarrow> tag_env) \<Rightarrow> batch_params \<Rightarrow> nat
     \<Rightarrow> chapter_dict \<Rightarrow> effect list" where
  "chapter_step dv job_env tag_env params i chapter =
     (let title = batch_title chapter i;
          content = get_content chapter
      in [Put (Progress (progress_pct i (length (chapters params)))),
          Put (Status (Processing_count (i - 1) (length (chapters params))))]
         @ (if strip content = [] then [Put (Log (Skip_empty_chapter title))]
            else
              [Put (Log (Processing_chapter title))]
              @ (let (result, events) =
                       process_text_to_mp3 dv (job_env i) content
                         (batch_output_mp3 params i chapter) (batch_output_lrc params i chapter)
                         (batch_voice params) (batch_chars_per_line params) MAX_RETRIES
                 in map Job events
                    @ (if result then
                         (let (tagged, tag_events) =
                                update_mp3_tag (tag_env i) (cover_data params) title
                                  (batch_artist params) (batch_album params)
                          in map Tagger tag_events
                             @ (if tagged then [Put (Log (Chapter_done title))]
                                else [Put (Log (Chapter_generated_tag_failed title))]))
                       else [Put (Log (Chapter_failed title))]))))"

fun chapter_loop ::
  "digits \<Rightarrow> (nat \<Rightarrow> nat \<Rightarrow> attempt_result) \<Rightarrow> (nat \<Rightarrow> tag_env) \<Rightarrow> batch_params \<Rightarrow> nat
     \<Rightarrow> chapter_dict list \<Rightarrow> effect list" where
  "chapter_loop dv job_env tag_env params i [] = []"
| "chapter_loop dv job_env tag_env params i (chapter # rest) =
     chapter_step dv job_env tag_env params i chapter
     @ chapter_loop dv job_env tag_env params (i + 1) rest"

definition generate_ebook_thread ::
  "digits \<Rightarrow> (nat \<Rightarrow> nat \<Rightarrow> attempt_result) \<Rightarrow> (nat \<Rightarrow> tag_env) \<Rightarrow> batch_params
     \<Rightarrow> effect list" where
  "generate_ebook_thread dv job_env tag_env params =
     [Put (Log (Start_ebook (length (chapters params)))),
      Put (Status (Processing_count 0 (length (chapters params))))]
     @ chapter_loop dv job_env tag_env params 1 (chapters params)
     @ [Put (Progress 100),
        Put (Status (Batch_complete (length (chapters params)) (length (chapters params)))),
        Put (Log All_chapters_done),
        Put (Log Total_elapsed_time),
        Show Ask_open_directory]
     @ [Set_processing False, Enable Generate_ebook_button True]"

subsection \<open>Request handlers of the interface thread\<close>

text \<open>
  The part of the application object that the two request handlers read and write, with
  the worker threads they have started and the dialogs they have shown. A handler runs
  as a callback of the interface: an exception that leaves it ends the handler there and
  is listed in \<open>raised\<close>. \<open>user\<close> is what the user answers to the dialogs of one
  request; \<open>resolved_cover\<close> is the cover the batch handler ends up with.
  \<open>file_system\<close> is what the file system answers to the calls of a handler: the path
  of the directory for temporary files of single chapters, whether \<open>os.makedirs\<close> raises
  on a directory, and whether creating and writing a text file raises.
\<close>

datatype worker = Single_chapter_thread single_params | Generate_ebook_thread batch_params

record app =
  processing :: bool
  epub_chapters :: "chapter_dict list option"
  output_dir_var :: ustr
  voice_var :: ustr
  chars_per_line_var :: int
  artist_var :: ustr
  album_var :: ustr
  threads :: "worker list"
  shown :: "dialog list"
  raised :: "exn list"

record user =
  chosen_directory :: ustr
  confirms :: bool
  resolved_cover :: "nat list option"

record file_system =
  temp_dir :: ustr
  makedirs_raises :: "ustr \<Rightarrow> exn option"
  write_raises :: "path \<Rightarrow> exn option"

definition show_dialog :: "dialog \<Rightarrow> app \<Rightarrow> app" where
  "show_dialog d st = st\<lparr>shown := shown st @ [d]\<rparr>"

definition raises :: "exn \<Rightarrow> app \<Rightarrow> app" where
  "raises e st = st\<lparr>raised := raised st @ [e]\<rparr>"

definition single_title :: "chapter_dict \<Rightarrow> int \<Rightarrow> ustr" where
  "single_title chapter index =
     (case ch_title chapter of
        Some t \<Rightarrow> t
      | None \<Rightarrow> zhangjie @ u '' '' @ decimal (nat (index + 1)))"

definition convert_chapter_to_mp3 :: "file_system \<Rightarrow> app \<Rightarrow> int \<Rightarrow> user \<Rightarrow> app" where
  "convert_chapter_to_mp3 fsys st index usr =
     (case epub_chapters st of
        None \<Rightarrow> show_dialog Error_select_valid_chapter st
      | Some chs \<Rightarrow>
          if index < 0 then show_dialog Error_select_valid_chapter st
          else if index \<ge> int (length chs) then show_dialog Error_index_invalid st
          else
            (let chapter = chs ! nat index;
                 title = single_title chapter index;
                 content = get_content chapter
             in if strip content = [] then show_dialog (Error_no_content title) st
                else
                  (case makedirs_raises fsys (temp_dir fsys) of
                     Some e \<Rightarrow> raises e st
                   | None \<Rightarrow>
                       (let safe_title = single_safe_title title (nat index);
                            txt_path = (temp_dir fsys, safe_title @ u ''.txt'')
                        in case write_raises fsys txt_path of
                             Some e \<Rightarrow> raises e st
                           | None \<Rightarrow>
                               (let asked = (output_dir_var st = []);
                                    st = (if asked then show_dialog Ask_directory st else st);
                                    output_dir = (if asked then chosen_directory usr
                                                  else output_dir_var st)
                                in if output_dir = [] then st
                                   else
                                     (let st = st\<lparr>output_dir_var := output_dir\<rparr>
                                      in case makedirs_raises fsys output_dir of
                                           Some e \<Rightarrow> raises e st
                                         | None \<Rightarrow>
                                             (let st = show_dialog Ask_confirm st
                                              in if \<not> confirms usr then st
                                                 else st\<lparr>threads := threads st @
                                                   [Single_chapter_thread
                                                      \<lparr>chapter_title = title,
                                                       content = content,
                                                       output_mp3 =
                                                         (output_dir, safe_title @ u ''.mp3''),
                                                       output_lrc =
                                                         (output_dir, safe_title @ u ''.lrc''),
                                                       voice = voice_var st,
                                                       chars_per_line = chars_per_line_var st,
                                                       artist = artist_var st,
                                                       album = album_var st\<rparr>]\<rparr>)))))))"

definition start_generate_ebook :: "file_system \<Rightarrow> app \<Rightarrow> user \<Rightarrow> app" where
  "start_generate_ebook fsys st usr =
     (if processing st then show_dialog Warning_busy st
      else
        (case epub_chapters st of
           None \<Rightarrow> show_dialog Error_no_chapters st
         | Some chs \<Rightarrow>
             if chs = [] then show_dialog Error_no_chapters st
             else
               (let asked = (output_dir_var st = []);
                    st = (if asked then show_dialog Ask_directory st else st);
                    output_dir = (if asked then chosen_directory usr else output_dir_var st)
                in if output_dir = [] then st
                   else
                     (let st = st\<lparr>output_dir_var := output_dir\<rparr>
                      in case makedirs_raises fsys output_dir of
                           Some e \<Rightarrow> raises e st
                         | None \<Rightarrow>
                             (let st = show_dialog Ask_confirm st
                              in if \<not> confirms usr then st
                                 else st\<lparr>processing := True,
                                         threads := threads st @
                                           [Generate_ebook_thread
                                              \<lparr>output_dir = output_dir,
                                               chapters = chs,
                                               batch_voice = voice_var st,
                                               batch_chars_per_line = chars_per_line_var st,
                                               batch_artist = artist_var st,
                                               batch_album = album_var st,
                                               cover_data = resolved_cover usr\<rparr>]\<rparr>)))))"

section \<open>Auxiliary notions for the statements\<close>

text \<open>Lyric lines whose start time is known, seen as the merged items of the loop.\<close>

definition timed :: "(nat \<times> ustr) list \<Rightarrow> (nat option \<times> ustr) list" where
  "timed ls = map (\<lambda>(t, s). (Some t, s)) ls"








text \<open>
  What the single-chapter thread reports: success is the status message of a completed
  conversion, failure is the status message of a failed conversion or its error dialog.
  What the batch thread reports for a chapter: success is one of the two log messages
  that say the chapter was generated, failure is the log message that its generation
  failed.
\<close>

definition reports_success :: "effect list \<Rightarrow> bool" where
  "reports_success trace \<longleftrightarrow> Put (Status Conversion_complete) \<in> set trace"

definition reports_failure :: "effect list \<Rightarrow> bool" where
  "reports_failure trace \<longleftrightarrow>
     Put (Status Conversion_failed) \<in> set trace \<or> Show Error_conversion_failed \<in> set trace"

definition reports_chapter_success :: "ustr \<Rightarrow> effect list \<Rightarrow> bool" where
  "reports_chapter_success title trace \<longleftrightarrow>
     Put (Log (Chapter_done title)) \<in> set trace
     \<or> Put (Log (Chapter_generated_tag_failed title)) \<in> set trace"

definition reports_chapter_failure :: "ustr \<Rightarrow> effect list \<Rightarrow> bool" where
  "reports_chapter_failure title trace \<longleftrightarrow> Put (Log (Chapter_failed title)) \<in> set trace"

text \<open>Concrete inputs used to run the definitions.\<close>

definition first_try_completes :: "nat \<Rightarrow> attempt_result" where
  "first_try_completes attempt = Completes []"

definition every_job_completes :: "nat \<Rightarrow> nat \<Rightarrow> attempt_result" where
  "every_job_completes i attempt = Completes []"

definition tagging_works :: tag_env where
  "tagging_works = \<lparr>load_raises = None, lrc_file = Some (Inr []), save_raises = None\<rparr>"

definition tagging_breaks :: tag_env where
  "tagging_breaks =
     \<lparr>load_raises = Some (Exn (u ''corrupt'')), lrc_file = Some (Inr []), save_raises = None\<rparr>"

definition every_tagging_works :: "nat \<Rightarrow> tag_env" where
  "every_tagging_works i = tagging_works"

definition one_chapter :: chapter_dict where
  "one_chapter = \<lparr>ch_title = Some (u ''A/B:C''), ch_content = Some (u ''hello'')\<rparr>"

definition one_job :: single_params where
  "one_job =
     \<lparr>chapter_title = u ''A/B:C'', content = u ''hello'',
      output_mp3 = (u ''out'', u ''ABC.mp3''), output_lrc = (u ''out'', u ''ABC.lrc''),
      voice = u ''v'', chars_per_line = 15, artist = u ''a'', album = u ''b''\<rparr>"

definition idle_app :: app where
  "idle_app =
     \<lparr>processing = False, epub_chapters = Some [one_chapter], output_dir_var = u ''out'',
      voice_var = u ''v'', chars_per_line_var = 15, artist_var = u ''a'', album_var = u ''b'',
      threads = [], shown = [], raised = []\<rparr>"

definition says_yes :: user where
  "says_yes = \<lparr>chosen_directory = u ''out'', confirms = True, resolved_cover = None\<rparr>"

text \<open>
  A file system on which every call returns, and one that refuses a file name of more
  than 255 code points.
\<close>

definition disk_ok :: file_system where
  "disk_ok = \<lparr>temp_dir = u ''tmp'', makedirs_raises = (\<lambda>dir. None),
              write_raises = (\<lambda>file. None)\<rparr>"



definition book_of :: "nat \<Rightarrow> batch_params" where
  "book_of n =
     \<lparr>output_dir = u ''out'', chapters = replicate n one_chapter, batch_voice = u ''v'',
      batch_chars_per_line = 15, batch_artist = u ''a'', batch_album = u ''b'',
      cover_data = None\<rparr>"

definition blank_chapter :: chapter_dict where
  "blank_chapter = \<lparr>ch_title = Some (u ''B''), ch_content = Some [32, 10]\<rparr>"

definition three_chapters :: batch_params where
  "three_chapters =
     \<lparr>output_dir = u ''out'', chapters = [blank_chapter, one_chapter, one_chapter],
      batch_voice = u ''v'', batch_chars_per_line = 15, batch_artist = u ''a'',
      batch_album = u ''b'', cover_data = None\<rparr>"

definition second_job_fails :: "nat \<Rightarrow> nat \<Rightarrow> attempt_result" where
  "second_job_fails i attempt = (if i = 2 then Raises (Exn (u ''net'')) else Completes [])"

definition network_down :: "nat \<Rightarrow> exn" where
  "network_down attempt = Exn (u ''net'')"

definition every_tagging_breaks :: "nat \<Rightarrow> tag_env" where
  "every_tagging_breaks i = tagging_breaks"

fun is_progress :: "effect \<Rightarrow> bool" where
  "is_progress (Put (Progress n)) = True"
| "is_progress ev = False"

text \<open>
  The real number that a double \<open>(m, e)\<close> stands for, and rounding of a real number to
  the nearest integer with ties to even, to state what \<open>round_double\<close> computes.
\<close>

definition val :: "int \<times> int \<Rightarrow> real" where
  "val x = (case x of (m, e) \<Rightarrow> real_of_int m * 2 powr real_of_int e)"

definition rne :: "real \<Rightarrow> int" where
  "rne x = (let f = \<lfloor>x\<rfloor>
            in if x - of_int f < 1 / 2 then f
               else if x - of_int f > 1 / 2 then f + 1
               else if even f then f else f + 1)"

section \<open>Properties of the subtitle formatter\<close>

declare decimal.simps [simp del]

lemma timed_snoc: "timed ls @ [(Some t, s)] = timed (ls @ [(t, s)])"
  by (simp add: timed_def)

text \<open>
  The invariant of the merge loop: the lines flushed so far are time-ordered and lie
  before the pending start time, which lies before the items still to come; a pending
  text exists only while items remain.
\<close>

lemma merge_loop_inv:
  "sorted (map fst rest) \<Longrightarrow> sorted (map fst ls) \<Longrightarrow>
   (\<forall>t\<in>fst ` set ls. \<forall>x\<in>fst ` set rest. t \<le> x) \<Longrightarrow>
   (ct \<noteq> [] \<longrightarrow> (\<exists>t0. ctime = Some t0 \<and> (\<forall>t\<in>fst ` set ls. t \<le> t0)
       \<and> (\<forall>x\<in>fst ` set rest. t0 \<le> x))) \<Longrightarrow>
   (rest = [] \<longrightarrow> ct = []) \<Longrightarrow>
   \<exists>ls'. merge_loop cpl rest ct ctime (timed ls) = timed ls' \<and> sorted (map fst ls') \<and>
         (\<forall>(t, s)\<in>set ls'. s \<noteq> [] \<or> (t, s) \<in> set ls) \<and>
         concat (map snd ls') = concat (map snd ls) @ ct @ concat (map snd rest)"
proof (induction rest arbitrary: ct ctime ls)
  case Nil
  then show ?case by auto
next
  case (Cons a rest)
  obtain time_ms tx where a: "a = (time_ms, tx)" by (cases a)
  define ctime' where "ctime' = (if ct = [] then Some time_ms else ctime)"
  define ct' where "ct' = ct @ tx"
  from Cons.prems(4) have "\<exists>t0. ctime' = Some t0 \<and> (\<forall>t\<in>fst ` set ls. t \<le> t0)
      \<and> (\<forall>x\<in>fst ` set rest. t0 \<le> x)"
    using Cons.prems(1,3) by (auto simp: ctime'_def a)
  then obtain t0 where t0: "ctime' = Some t0" "\<forall>t\<in>fst ` set ls. t \<le> t0"
      "\<forall>x\<in>fst ` set rest. t0 \<le> x"
    by blast
  have srest: "sorted (map fst rest)" using Cons.prems(1) by simp
  show ?case
  proof (cases "int (length ct') \<ge> cpl \<or> rest = []")
    case flush: True
    show ?thesis
    proof (cases "ct' = []")
      case True
      have "\<exists>ls'. merge_loop cpl rest [] ctime' (timed ls) = timed ls' \<and> sorted (map fst ls') \<and>
         (\<forall>(t, s)\<in>set ls'. s \<noteq> [] \<or> (t, s) \<in> set ls) \<and>
         concat (map snd ls') = concat (map snd ls) @ [] @ concat (map snd rest)"
        using Cons.prems(2,3) srest by (intro Cons.IH) auto
      then show ?thesis using flush True by (simp add: a ct'_def ctime'_def)
    next
      case False
      have "\<exists>ls'. merge_loop cpl rest [] ctime' (timed (ls @ [(t0, ct')])) = timed ls' \<and>
         sorted (map fst ls') \<and>
         (\<forall>(t, s)\<in>set ls'. s \<noteq> [] \<or> (t, s) \<in> set (ls @ [(t0, ct')])) \<and>
         concat (map snd ls') = concat (map snd (ls @ [(t0, ct')])) @ [] @ concat (map snd rest)"
        using Cons.prems(2,3) srest t0 by (intro Cons.IH) (auto simp: sorted_append)
      then obtain ls' where
        "merge_loop cpl rest [] ctime' (timed (ls @ [(t0, ct')])) = timed ls'"
        "sorted (map fst ls')"
        "\<forall>(t, s)\<in>set ls'. s \<noteq> [] \<or> (t, s) \<in> set (ls @ [(t0, ct')])"
        "concat (map snd ls') = concat (map snd (ls @ [(t0, ct')])) @ [] @ concat (map snd rest)"
        by blast
      then show ?thesis using flush False t0(1)
        by (intro exI[of _ ls']) (simp add: a timed_snoc Let_def flip: ct'_def ctime'_def)
    qed
  next
    case noflush: False
    then have ne: "rest \<noteq> []" by simp
    have "\<exists>ls'. merge_loop cpl rest ct' ctime' (timed ls) = timed ls' \<and> sorted (map fst ls') \<and>
         (\<forall>(t, s)\<in>set ls'. s \<noteq> [] \<or> (t, s) \<in> set ls) \<and>
         concat (map snd ls') = concat (map snd ls) @ ct' @ concat (map snd rest)"
      using Cons.prems(2,3) srest t0 ne by (intro Cons.IH) auto
    then show ?thesis using noflush
      by (simp add: a Let_def flip: ct'_def ctime'_def) (simp add: ct'_def)
  qed
qed

lemma sorted_sort_items: "sorted (map fst (sort_items items))"
  by (simp add: sort_items_def)

lemma merge_items_lines:
  "\<exists>ls. merge_items cpl (sort_items items) = timed ls \<and> sorted (map fst ls) \<and>
        (\<forall>(t, s)\<in>set ls. s \<noteq> []) \<and>
        concat (map snd ls) = concat (map snd (sort_items items))"
  using merge_loop_inv[of "sort_items items" "[]" "[]" None cpl] sorted_sort_items[of items]
  by (simp add: merge_items_def timed_def)

lemma render_lines_timed:
  "render_lines (timed ls) = Inr (map (\<lambda>(t, s). lrc_time t @ s) ls)"
  by (induction ls) (auto simp: timed_def)

lemma lrc_of_items_lines:
  assumes "merge_items cpl (sort_items items) = timed ls"
  shows "lrc_of_items cpl items = Inr (join [10] (map (\<lambda>(t, s). lrc_time t @ s) ls))"
proof (cases "sort_items items = []")
  case True
  then have "timed ls = []" using assms by (simp add: merge_items_def)
  then have "ls = []" by (simp add: timed_def)
  then show ?thesis using True by (simp add: lrc_of_items_def)
next
  case False
  then show ?thesis using assms by (simp add: lrc_of_items_def render_lines_timed)
qed

text \<open>
  C1. The function sorts the collected fragments by offset, and the sort keeps every
  fragment and is stable on equal offsets. For every sequence of fragments and every
  \<open>chars_per_line\<close> (positive or not), the merge loop applied to the sorted fragments
  produces lyric lines that all carry a start time, so that rendering them raises
  nothing and the function returns these lines, rendered and joined; the start times
  of the lines are non-decreasing and their concatenated text is the concatenation of
  the fragment texts in sorted order. This is what \<open>convert_srt_to_lrc\<close> computes from
  the fragments collected from the blocks of its input. The empty sequence gives no
  line and the empty output, not an error.
\<close>

theorem merge_time_ordered_text_preserved:
  "\<exists>lines. merge_items cpl (sort_items items) = timed lines
      \<and> lrc_of_items cpl items = Inr (join [10] (map (\<lambda>(t, s). lrc_time t @ s) lines))
      \<and> sorted (map fst lines)
      \<and> concat (map snd lines) = concat (map snd (sort_items items))
      \<and> sorted (map fst (sort_items items))
      \<and> mset (sort_items items) = mset items
      \<and> (\<forall>k. filter (\<lambda>x. fst x = k) (sort_items items) = filter (\<lambda>x. fst x = k) items)
      \<and> sorted_items dv blocks = sort_items (collect_items dv blocks [])
      \<and> convert_srt_to_lrc dv srt_content cpl
          = lrc_of_items cpl (collect_items dv (srt_blocks srt_content) [])
      \<and> merge_items cpl (sort_items []) = []
      \<and> lrc_of_items cpl [] = Inr []
      \<and> convert_srt_to_lrc dv [] cpl = Inr []"
proof -
  obtain ls where ls: "merge_items cpl (sort_items items) = timed ls" "sorted (map fst ls)"
     "concat (map snd ls) = concat (map snd (sort_items items))"
    using merge_items_lines by blast
  have r: "lrc_of_items cpl items = Inr (join [10] (map (\<lambda>(t, s). lrc_time t @ s) ls))"
    using ls(1) by (rule lrc_of_items_lines)
  have s1: "sorted (map fst (sort_items items))" by (rule sorted_sort_items)
  have s2: "mset (sort_items items) = mset items" by (simp add: sort_items_def)
  have s3: "\<forall>k. filter (\<lambda>x. fst x = k) (sort_items items) = filter (\<lambda>x. fst x = k) items"
    by (simp add: sort_items_def sort_key_stable)
  have b: "sorted_items dv blocks = sort_items (collect_items dv blocks [])"
    by (simp add: sorted_items_def)
  have f: "convert_srt_to_lrc dv srt_content cpl
          = lrc_of_items cpl (collect_items dv (srt_blocks srt_content) [])"
    by (simp add: convert_srt_to_lrc_def convert_blocks_def)
  have e1: "merge_items cpl (sort_items []) = []" by (simp add: merge_items_def sort_items_def)
  have e2: "lrc_of_items cpl [] = Inr []" by (simp add: lrc_of_items_def sort_items_def)
  have e3: "convert_srt_to_lrc dv [] cpl = Inr []"
    by (simp add: convert_srt_to_lrc_def convert_blocks_def srt_blocks_def strip_def
        lrc_of_items_def sort_items_def block_item_def)
  show ?thesis
    by (intro exI[of _ ls] conjI ls r s1 s2 s3 b f e1 e2 e3)
qed

theorem merge_time_ordered_text_preserved_witness:
  "\<exists>lines. merge_items 2 (sort_items [(300, [98]), (0, [97]), (300, [99])]) = timed lines
      \<and> lrc_of_items 2 [(300, [98]), (0, [97]), (300, [99])]
          = Inr (join [10] (map (\<lambda>(t, s). lrc_time t @ s) lines))
      \<and> sorted (map fst lines) \<and> concat (map snd lines) = [97, 98, 99]"
proof -
  obtain lines where
    "merge_items 2 (sort_items [(300, [98]), (0, [97]), (300, [99])]) = timed lines"
    "lrc_of_items 2 [(300, [98]), (0, [97]), (300, [99])]
          = Inr (join [10] (map (\<lambda>(t, s). lrc_time t @ s) lines))"
    "sorted (map fst lines)"
    "concat (map snd lines)
       = concat (map snd (sort_items [(300, [98::nat]), (0::nat, [97]), (300, [99])]))"
    using merge_time_ordered_text_preserved[of 2 "[(300, [98]), (0, [97]), (300, [99])]"
        ascii_digit "[]" "[]"]
    by blast
  then show ?thesis by (intro exI[of _ lines]) (simp add: sort_items_def)
qed

subsection \<open>Rendering\<close>

lemma decimal_lt10: "n < 10 \<Longrightarrow> decimal n = [48 + n]"
  by (simp add: decimal.simps[of n])

lemma decimal_lt100: "10 \<le> n \<Longrightarrow> n < 100 \<Longrightarrow> decimal n = [48 + n div 10, 48 + n mod 10]"
  by (simp add: decimal.simps[of n] decimal_lt10)


lemma length_decimal_pos: "length (decimal n) > 0"
  by (induction n rule: decimal.induct) (subst decimal.simps, simp)

lemma length_decimal_ge100: "100 \<le> n \<Longrightarrow> length (decimal n) > 2"
proof -
  assume n: "100 \<le> n"
  then have a: "decimal n = decimal (n div 10) @ [48 + n mod 10]"
    by (simp add: decimal.simps[of n])
  from n have "10 \<le> n div 10" by simp
  then have b: "decimal (n div 10) = decimal (n div 10 div 10) @ [48 + n div 10 mod 10]"
    by (simp add: decimal.simps[of "n div 10"])
  show ?thesis using length_decimal_pos[of "n div 10 div 10"] by (simp add: a b)
qed


lemma fmt_02d_lt100: "n < 100 \<Longrightarrow> fmt_0wd 2 n = [48 + n div 10, 48 + n mod 10]"
  by (cases "n < 10") (simp_all add: fmt_0wd_def decimal_lt10 decimal_lt100)

lemma fmt_02d_ge100: "100 \<le> n \<Longrightarrow> fmt_0wd 2 n = decimal n"
  using length_decimal_ge100[of n] by (simp add: fmt_0wd_def)


text \<open>
  C7. Every merged lyric line renders as the time tag followed by its text. The tag is
  \<open>[MM:SS.CC]\<close>: \<open>SS\<close> and \<open>CC\<close> are always two digits, \<open>CC\<close> is the millisecond part
  divided by ten with the remainder dropped (999 ms gives 99, not a carry), and \<open>MM\<close> is
  two digits below 100 minutes and the plain decimal number, three digits or more, from
  100 minutes on. The four fragments of the example, merged with \<open>chars_per_line = 2\<close>,
  give the two lines of the example, also when they come as SRT text.
\<close>

theorem lrc_line_format:
  "render_lines (timed lines) = Inr (map (\<lambda>(t, s). lrc_time t @ s) lines)
   \<and> lrc_time t = u ''['' @ fmt_0wd 2 (t div 60000) @ u '':''
        @ [48 + t div 1000 mod 60 div 10, 48 + t div 1000 mod 60 mod 10] @ u ''.''
        @ [48 + t mod 1000 div 10 div 10, 48 + t mod 1000 div 10 mod 10] @ u '']''
   \<and> 10 * (t mod 1000 div 10) \<le> t mod 1000 \<and> t mod 1000 < 10 * (t mod 1000 div 10) + 10
   \<and> lrc_time 999 = u ''[00:00.99]''
   \<and> fmt_0wd 2 (t div 60000) =
        (if t < 6000000 then [48 + t div 60000 div 10, 48 + t div 60000 mod 10]
         else decimal (t div 60000))
   \<and> (2 < length (fmt_0wd 2 (t div 60000))) = (6000000 \<le> t)
   \<and> merge_items 2 (sort_key fst [(0, [20320]), (300, [22909]), (600, [19990]), (900, [30028])])
        = [(Some 0, [20320, 22909]), (Some 600, [19990, 30028])]
   \<and> render_lines [(Some 0, [20320, 22909]), (Some 600, [19990, 30028])]
        = Inr [u ''[00:00.00]'' @ [20320, 22909], u ''[00:00.60]'' @ [19990, 30028]]
   \<and> convert_srt_to_lrc ascii_digit
        (u ''1'' @ [10] @ u ''00:00:00,000 --> 00:00:00,300'' @ [10, 20320, 10, 10]
         @ u ''2'' @ [10] @ u ''00:00:00,300 --> 00:00:00,600'' @ [10, 22909, 10, 10]
         @ u ''3'' @ [10] @ u ''00:00:00,600 --> 00:00:00,900'' @ [10, 19990, 10, 10]
         @ u ''4'' @ [10] @ u ''00:00:00,900 --> 00:00:01,200'' @ [10, 30028, 10, 10]) 2
        = Inr (u ''[00:00.00]'' @ [20320, 22909] @ [10] @ u ''[00:00.60]'' @ [19990, 30028])"
proof -
  have ss: "t div 1000 mod 60 < 100"
    by (rule less_trans[of _ 60]) simp_all
  have cc: "t mod 1000 div 10 < 100" by simp
  have time: "lrc_time t = u ''['' @ fmt_0wd 2 (t div 60000) @ u '':''
        @ [48 + t div 1000 mod 60 div 10, 48 + t div 1000 mod 60 mod 10] @ u ''.''
        @ [48 + t mod 1000 div 10 div 10, 48 + t mod 1000 div 10 mod 10] @ u '']''"
    by (simp add: lrc_time_def fmt_02d_lt100[OF ss] fmt_02d_lt100[OF cc] div_mult2_eq[symmetric])
  have trunc: "10 * (t mod 1000 div 10) \<le> t mod 1000"
    "t mod 1000 < 10 * (t mod 1000 div 10) + 10"
    using mult_div_mod_eq[of 10 "t mod 1000"] pos_mod_bound[of 10 "int (t mod 1000)"]
    by linarith+
  have ex1: "lrc_time 999 = u ''[00:00.99]''"
    by (simp add: lrc_time_def u_def fmt_02d_lt100)
  have mm: "fmt_0wd 2 (t div 60000) =
        (if t < 6000000 then [48 + t div 60000 div 10, 48 + t div 60000 mod 10]
         else decimal (t div 60000))"
  proof (cases "t < 6000000")
    case True
    then have "t div 60000 < 100" by simp
    then show ?thesis using True by (simp add: fmt_02d_lt100)
  next
    case False
    then have "100 \<le> t div 60000" by simp
    then show ?thesis using False by (simp add: fmt_02d_ge100)
  qed
  have len: "(2 < length (fmt_0wd 2 (t div 60000))) = (6000000 \<le> t)"
  proof (cases "t < 6000000")
    case True
    then show ?thesis by (simp add: mm)
  next
    case False
    then have "100 \<le> t div 60000" by simp
    then show ?thesis using False length_decimal_ge100[of "t div 60000"] by (simp add: mm)
  qed
  have ex2: "merge_items 2 (sort_key fst [(0, [20320]), (300, [22909]), (600, [19990]), (900, [30028])])
        = [(Some 0, [20320, 22909]), (Some 600, [19990, 30028])]"
    by (simp add: merge_items_def)
  have ex3: "render_lines [(Some 0, [20320, 22909]), (Some 600, [19990, 30028])]
        = Inr [u ''[00:00.00]'' @ [20320, 22909], u ''[00:00.60]'' @ [19990, 30028]]"
    by (simp add: lrc_time_def u_def fmt_02d_lt100)
  have ex4: "convert_srt_to_lrc ascii_digit
        (u ''1'' @ [10] @ u ''00:00:00,000 --> 00:00:00,300'' @ [10, 20320, 10, 10]
         @ u ''2'' @ [10] @ u ''00:00:00,300 --> 00:00:00,600'' @ [10, 22909, 10, 10]
         @ u ''3'' @ [10] @ u ''00:00:00,600 --> 00:00:00,900'' @ [10, 19990, 10, 10]
         @ u ''4'' @ [10] @ u ''00:00:00,900 --> 00:00:01,200'' @ [10, 30028, 10, 10]) 2
        = Inr (u ''[00:00.00]'' @ [20320, 22909] @ [10] @ u ''[00:00.60]'' @ [19990, 30028])"
    by (simp add: convert_srt_to_lrc_def convert_blocks_def srt_blocks_def strip_def
        py_isspace_def lrc_of_items_def sort_items_def block_item_def ascii_digit_def int2_def int3_def
        merge_items_def lrc_time_def fmt_02d_lt100 u_def)
  show ?thesis
    using time trunc ex1 mm len ex2 ex3 ex4 render_lines_timed[of lines] by blast
qed

theorem lrc_line_format_witness:
  "lrc_time 6000000 = u ''[100:00.00]'' \<and> lrc_time 605 = u ''[00:00.60]''"
  using lrc_line_format[of "[]" 6000000] lrc_line_format[of "[]" 605]
  by (simp add: u_def decimal.simps)

section \<open>Properties of the retrying synthesis job\<close>

lemma attempts_all_raise:
  "text \<noteq> [] \<Longrightarrow> strip text \<noteq> [] \<Longrightarrow> \<forall>a\<in>set as. env a = Raises (err a) \<Longrightarrow>
   attempts dv env text audio lrc v cpl n as
     = (False, concat (map (\<lambda>a. Communicate text v # on_exception a n (err a)) as))"
  by (induction as) simp_all

lemma on_exception_retry:
  "a + 1 < n \<Longrightarrow> on_exception a n e
     = [Attempt_failed (a + 1) n e, Waiting RETRY_DELAY_SECONDS, Sleep RETRY_DELAY_SECONDS]"
  by (simp add: on_exception_def)

lemma on_exception_last:
  "a + 1 \<ge> n \<Longrightarrow> on_exception a n e = [Retries_exhausted n e, Print_traceback]"
  by (simp add: on_exception_def)

lemma all_raise_trace:
  "concat (map (\<lambda>a. Communicate text v # on_exception a n (err a)) [0..<n])
     = concat (map (\<lambda>a. [Communicate text v, Attempt_failed (a + 1) n (err a),
                           Waiting RETRY_DELAY_SECONDS, Sleep RETRY_DELAY_SECONDS]) [0..<n - 1])
       @ (if n = 0 then []
          else [Communicate text v, Retries_exhausted n (err (n - 1)), Print_traceback])"
proof (cases n)
  case 0
  then show ?thesis by simp
next
  case (Suc k)
  have eq: "concat (map (\<lambda>a. Communicate text v # on_exception a (Suc k) (err a)) [0..<k])
      = concat (map (\<lambda>a. [Communicate text v, Attempt_failed (Suc a) (Suc k) (err a),
                           Waiting RETRY_DELAY_SECONDS, Sleep RETRY_DELAY_SECONDS]) [0..<k])"
    by (rule arg_cong[where f = concat], rule map_cong) (simp_all add: on_exception_retry)
  show ?thesis using Suc eq by (simp add: on_exception_last)
qed

lemma count_retry_rounds:
  "length (filter is_communicate (concat (map (\<lambda>a. [Communicate text v,
      Attempt_failed (Suc a) n (err a), Waiting d, Sleep d]) as))) = length as"
  "length (filter is_sleep (concat (map (\<lambda>a. [Communicate text v,
      Attempt_failed (Suc a) n (err a), Waiting d, Sleep d]) as))) = length as"
  "length (filter is_failure_log (concat (map (\<lambda>a. [Communicate text v,
      Attempt_failed (Suc a) n (err a), Waiting d, Sleep d]) as))) = length as"
  by (induction as) simp_all

lemma sleeps_retry_rounds:
  "ev \<in> set (concat (map (\<lambda>a. [Communicate text v,
      Attempt_failed (a + 1) n (err a), Waiting d, Sleep d]) as)) \<Longrightarrow> is_sleep ev \<Longrightarrow> ev = Sleep d"
  by (induction as) auto

lemma blank_strip: "\<forall>c\<in>set s. py_isspace c \<Longrightarrow> strip s = []"
proof -
  assume "\<forall>c\<in>set s. py_isspace c"
  then have d: "dropWhile py_isspace s = []" by (induction s) simp_all
  show ?thesis unfolding strip_def by (simp only: d dropWhile.simps rev.simps)
qed

text \<open>
  C2. Let the text be neither empty nor whitespace-only and let every attempt raise, the
  attempt numbered \<open>a\<close> (from 0) raising \<open>err a\<close>. Then the job returns \<open>False\<close> and its
  events are: for each of the first \<open>max_retries - 1\<close> attempts the call of the speech
  client, the attempt-failure message, the waiting message and a sleep of
  \<open>RETRY_DELAY_SECONDS\<close>; then, for the last attempt, the call, the message that the
  retries are exhausted with the last error, and the traceback, with no sleep after it.
  So there are exactly \<open>max_retries\<close> attempts, \<open>max_retries - 1\<close> sleeps, each of the
  retry delay, and \<open>max_retries\<close> failure messages.
\<close>

theorem job_exhausts_retries:
  assumes "text \<noteq> []" and "strip text \<noteq> []" and "\<forall>a<n. env a = Raises (err a)"
  shows "process_text_to_mp3 dv env text audio lrc v cpl n =
           (False,
            concat (map (\<lambda>a. [Communicate text v, Attempt_failed (a + 1) n (err a),
                               Waiting RETRY_DELAY_SECONDS, Sleep RETRY_DELAY_SECONDS])
                      [0..<n - 1])
            @ (if n = 0 then []
               else [Communicate text v, Retries_exhausted n (err (n - 1)), Print_traceback]))
         \<and> length (filter is_communicate
               (snd (process_text_to_mp3 dv env text audio lrc v cpl n))) = n
         \<and> length (filter is_sleep
               (snd (process_text_to_mp3 dv env text audio lrc v cpl n))) = n - 1
         \<and> (\<forall>ev\<in>set (snd (process_text_to_mp3 dv env text audio lrc v cpl n)).
               is_sleep ev \<longrightarrow> ev = Sleep RETRY_DELAY_SECONDS)
         \<and> length (filter is_failure_log
               (snd (process_text_to_mp3 dv env text audio lrc v cpl n))) = n"
proof -
  have "\<forall>a\<in>set [0..<n]. env a = Raises (err a)" using assms(3) by simp
  then have run: "process_text_to_mp3 dv env text audio lrc v cpl n =
           (False,
            concat (map (\<lambda>a. [Communicate text v, Attempt_failed (a + 1) n (err a),
                               Waiting RETRY_DELAY_SECONDS, Sleep RETRY_DELAY_SECONDS])
                      [0..<n - 1])
            @ (if n = 0 then []
               else [Communicate text v, Retries_exhausted n (err (n - 1)), Print_traceback]))"
    unfolding process_text_to_mp3_def
    using attempts_all_raise[OF assms(1,2), of "[0..<n]" env err dv audio lrc v cpl n]
    by (simp only: all_raise_trace)
  have sl: "\<forall>ev\<in>set (snd (process_text_to_mp3 dv env text audio lrc v cpl n)).
               is_sleep ev \<longrightarrow> ev = Sleep RETRY_DELAY_SECONDS"
    using sleeps_retry_rounds[of _ "text" v n err RETRY_DELAY_SECONDS "[0..<n - 1]"]
    unfolding run by (auto split: if_splits)
  have c1: "length (filter is_communicate
               (snd (process_text_to_mp3 dv env text audio lrc v cpl n))) = n"
    unfolding run by (cases n) (simp_all add: count_retry_rounds)
  have c2: "length (filter is_sleep
               (snd (process_text_to_mp3 dv env text audio lrc v cpl n))) = n - 1"
    unfolding run by (cases n) (simp_all add: count_retry_rounds)
  have c3: "length (filter is_failure_log
               (snd (process_text_to_mp3 dv env text audio lrc v cpl n))) = n"
    unfolding run by (cases n) (simp_all add: count_retry_rounds)
  show ?thesis
    by (intro conjI run sl c1 c2 c3)
qed

theorem job_exhausts_retries_witness:
  "process_text_to_mp3 ascii_digit (\<lambda>a. Raises (Exn [48 + a])) (u ''hi'') (u ''out'', u ''a.mp3'')
     (u ''out'', u ''a.lrc'') (u ''voice'') 15 MAX_RETRIES =
     (False,
      [Communicate (u ''hi'') (u ''voice''), Attempt_failed 1 3 (Exn [48]), Waiting 5, Sleep 5,
       Communicate (u ''hi'') (u ''voice''), Attempt_failed 2 3 (Exn [49]), Waiting 5, Sleep 5,
       Communicate (u ''hi'') (u ''voice''), Retries_exhausted 3 (Exn [50]), Print_traceback])"
proof -
  have a: "u ''hi'' \<noteq> []" and b: "strip (u ''hi'') \<noteq> []"
    by (simp_all add: u_def strip_def py_isspace_def)
  have c: "\<forall>a<MAX_RETRIES. (\<lambda>a. Raises (Exn [48 + a])) a = Raises ((\<lambda>a. Exn [48 + a]) a)"
    by simp
  have r: "[0..<MAX_RETRIES - 1] = [0, 1]"
    unfolding MAX_RETRIES_def by code_simp
  have "process_text_to_mp3 ascii_digit (\<lambda>a. Raises (Exn [48 + a])) (u ''hi'')
     (u ''out'', u ''a.mp3'') (u ''out'', u ''a.lrc'') (u ''voice'') 15 MAX_RETRIES =
           (False,
            concat (map (\<lambda>a. [Communicate (u ''hi'') (u ''voice''),
                               Attempt_failed (a + 1) MAX_RETRIES (Exn [48 + a]),
                               Waiting RETRY_DELAY_SECONDS, Sleep RETRY_DELAY_SECONDS])
                      [0..<MAX_RETRIES - 1])
            @ (if MAX_RETRIES = 0 then []
               else [Communicate (u ''hi'') (u ''voice''),
                     Retries_exhausted MAX_RETRIES (Exn [48 + (MAX_RETRIES - 1)]),
                     Print_traceback]))"
    using job_exhausts_retries[OF a b c, of ascii_digit "(u ''out'', u ''a.mp3'')"
        "(u ''out'', u ''a.lrc'')" "u ''voice''" 15]
    by (rule conjunct1)
  then show ?thesis
    unfolding r by (simp add: MAX_RETRIES_def RETRY_DELAY_SECONDS_def)
qed

text \<open>
  C3. When every character of the text is whitespace (the empty text included), the job
  returns \<open>False\<close> at its first attempt with the empty-text warning as its only event:
  the speech client is not called, nothing is slept and no second attempt is made. With
  \<open>max_retries = 0\<close> there is no attempt at all.
\<close>

theorem blank_text_fails_at_once:
  assumes "\<forall>c\<in>set text. py_isspace c"
  shows "process_text_to_mp3 dv env text audio lrc v cpl n
           = (False, if n = 0 then [] else [Warn_empty_text])
         \<and> filter is_communicate (snd (process_text_to_mp3 dv env text audio lrc v cpl n)) = []
         \<and> filter is_sleep (snd (process_text_to_mp3 dv env text audio lrc v cpl n)) = []
         \<and> filter is_failure_log (snd (process_text_to_mp3 dv env text audio lrc v cpl n)) = []"
proof -
  have "process_text_to_mp3 dv env text audio lrc v cpl n
           = (False, if n = 0 then [] else [Warn_empty_text])"
  proof (cases n)
    case 0
    then show ?thesis by (simp add: process_text_to_mp3_def)
  next
    case (Suc k)
    then show ?thesis
      using blank_strip[OF assms] by (simp add: process_text_to_mp3_def upt_rec[of 0])
  qed
  then show ?thesis by simp
qed

theorem blank_text_fails_at_once_witness:
  "process_text_to_mp3 ascii_digit (\<lambda>a. Completes []) [32, 10, 12288] (u ''out'', u ''a.mp3'')
     (u ''out'', u ''a.lrc'') (u ''voice'') 15 MAX_RETRIES = (False, [Warn_empty_text])"
proof -
  have a: "\<forall>c\<in>set [32, 10, 12288]. py_isspace c" by (simp add: py_isspace_def)
  show ?thesis
    using blank_text_fails_at_once[OF a, of ascii_digit "\<lambda>a. Completes []"
        "(u ''out'', u ''a.mp3'')" "(u ''out'', u ''a.lrc'')" "u ''voice''" 15 MAX_RETRIES]
    by (simp add: MAX_RETRIES_def)
qed

section \<open>Discarded blocks\<close>







subsection \<open>Removing the discarded blocks from the input text\<close>

















section \<open>Properties of the orchestrator\<close>

subsection \<open>File names\<close>











subsection \<open>The loop over the chapters\<close>

lemma chapter_loop_append:
  "chapter_loop dv je te p i (xs @ ys)
     = chapter_loop dv je te p i xs @ chapter_loop dv je te p (i + length xs) ys"
  by (induction xs arbitrary: i) simp_all

lemma chapter_loop_concat:
  "chapter_loop dv je te p i chs
     = concat (map (\<lambda>k. chapter_step dv je te p (i + k) (chs ! k)) [0..<length chs])"
proof (induction chs rule: rev_induct)
  case Nil
  then show ?case by simp
next
  case (snoc x xs)
  have eq: "concat (map (\<lambda>k. chapter_step dv je te p (i + k) ((xs @ [x]) ! k)) [0..<length xs])
      = concat (map (\<lambda>k. chapter_step dv je te p (i + k) (xs ! k)) [0..<length xs])"
    by (rule arg_cong[where f = concat], rule map_cong) (simp_all add: nth_append)
  show ?case by (simp add: chapter_loop_append snoc eq)
qed

lemma chapter_loop_split:
  assumes "j < length chs"
  shows "chapter_loop dv je te p i chs
     = chapter_loop dv je te p i (take j chs) @ chapter_step dv je te p (i + j) (chs ! j)
       @ chapter_loop dv je te p (i + j + 1) (drop (j + 1) chs)"
proof -
  have "chs = take j chs @ [chs ! j] @ drop (j + 1) chs"
    using assms by (simp add: id_take_nth_drop[symmetric])
  then have "chapter_loop dv je te p i chs
      = chapter_loop dv je te p i (take j chs @ [chs ! j] @ drop (j + 1) chs)"
    by simp
  also have "\<dots> = chapter_loop dv je te p i (take j chs)
       @ chapter_step dv je te p (i + j) (chs ! j)
       @ chapter_loop dv je te p (i + j + 1) (drop (j + 1) chs)"
    using assms by (simp add: chapter_loop_append min_def)
  finally show ?thesis .
qed

lemma step_in_thread:
  assumes "j < length (chapters p)"
  shows "\<exists>before after. generate_ebook_thread dv je te p
      = before @ chapter_step dv je te p (j + 1) (chapters p ! j) @ after"
proof -
  have "generate_ebook_thread dv je te p =
      ([Put (Log (Start_ebook (length (chapters p)))),
        Put (Status (Processing_count 0 (length (chapters p))))]
       @ chapter_loop dv je te p 1 (take j (chapters p)))
      @ chapter_step dv je te p (j + 1) (chapters p ! j)
      @ (chapter_loop dv je te p (1 + j + 1) (drop (j + 1) (chapters p))
         @ [Put (Progress 100),
            Put (Status (Batch_complete (length (chapters p)) (length (chapters p)))),
            Put (Log All_chapters_done), Put (Log Total_elapsed_time),
            Show Ask_open_directory, Set_processing False, Enable Generate_ebook_button True])"
    unfolding generate_ebook_thread_def
    by (subst chapter_loop_split[OF assms]) simp
  then show ?thesis by blast
qed

subsection \<open>Jobs that complete\<close>

lemma convert_blocks_no_error: "\<exists>lrc. convert_blocks dv blocks cpl = Inr lrc"
proof -
  obtain ls where "merge_items cpl (sort_items (collect_items dv blocks [])) = timed ls"
    using merge_items_lines by blast
  then show ?thesis
    by (simp add: convert_blocks_def lrc_of_items_def render_lines_timed Let_def)
qed


lemma attempts_true_writes:
  "attempts dv env text audio lrc_path v cpl n as = (True, events) \<Longrightarrow>
   \<exists>earlier lrc. events = earlier @ [Write_audio audio, Write_lrc lrc_path lrc]"
proof (induction as arbitrary: events)
  case Nil
  then show ?case by simp
next
  case (Cons a as)
  show ?case
  proof (cases "text = [] \<or> strip text = []")
    case True
    then show ?thesis using Cons.prems by auto
  next
    case False
    show ?thesis
    proof (cases "env a")
      case (Raises e)
      obtain r evs where rest: "attempts dv env text audio lrc_path v cpl n as = (r, evs)"
        by (cases "attempts dv env text audio lrc_path v cpl n as")
      then have "r = True" and ev: "events = [Communicate text v] @ on_exception a n e @ evs"
        using Cons.prems False Raises by simp_all
      then obtain earlier lrc where "evs = earlier @ [Write_audio audio, Write_lrc lrc_path lrc]"
        using Cons.IH rest by blast
      then have "events = ([Communicate text v] @ on_exception a n e @ earlier)
           @ [Write_audio audio, Write_lrc lrc_path lrc]"
        using ev by simp
      then show ?thesis by blast
    next
      case (Completes srt)
      obtain lrc where lrc: "convert_srt_to_lrc dv srt cpl = Inr lrc"
        using convert_blocks_no_error[of dv "srt_blocks srt" cpl]
        by (auto simp: convert_srt_to_lrc_def)
      then have "events = [Communicate text v] @ [Write_audio audio, Write_lrc lrc_path lrc]"
        using Cons.prems False Completes by simp
      then show ?thesis by blast
    qed
  qed
qed


subsection \<open>The single-chapter request\<close>








subsection \<open>Skipped and failed chapters\<close>

lemma process_all_raise:
  assumes "strip tx \<noteq> []" and "\<forall>a<n. env a = Raises (err a)"
  shows "fst (process_text_to_mp3 dv env tx audio lrc v cpl n) = False"
    and "length (filter is_failure_log (snd (process_text_to_mp3 dv env tx audio lrc v cpl n))) = n"
proof -
  have t: "tx \<noteq> []" using assms(1) by (auto simp: strip_def)
  have "\<forall>a\<in>set [0..<n]. env a = Raises (err a)" using assms(2) by simp
  then have run: "process_text_to_mp3 dv env tx audio lrc v cpl n =
           (False,
            concat (map (\<lambda>a. [Communicate tx v, Attempt_failed (a + 1) n (err a),
                               Waiting RETRY_DELAY_SECONDS, Sleep RETRY_DELAY_SECONDS])
                      [0..<n - 1])
            @ (if n = 0 then []
               else [Communicate tx v, Retries_exhausted n (err (n - 1)), Print_traceback]))"
    unfolding process_text_to_mp3_def
    using attempts_all_raise[OF t assms(1), of "[0..<n]" env err dv audio lrc v cpl n]
    by (simp only: all_raise_trace)
  show "fst (process_text_to_mp3 dv env tx audio lrc v cpl n) = False"
    unfolding run by simp
  show "length (filter is_failure_log (snd (process_text_to_mp3 dv env tx audio lrc v cpl n))) = n"
    unfolding run by (cases n) (simp_all add: count_retry_rounds)
qed

text \<open>
  C5. The events of a batch are the opening messages, then the events of the loop body
  for every chapter of the sequence in order, then the closing messages with progress
  100: the body runs for each of the K chapters whatever the others did. The body of a
  chapter whose content is empty or whitespace-only is the progress and status messages
  followed by the skip message, with no job. The body of a chapter with content whose
  every attempt raises is the progress and status messages, the processing message, the
  events of the job, which returns \<open>False\<close> after \<open>MAX_RETRIES\<close> failure messages, and
  the message that the chapter failed.
\<close>

theorem batch_continues_past_skips_and_failures:
  "generate_ebook_thread dv je te p =
     [Put (Log (Start_ebook (length (chapters p)))),
      Put (Status (Processing_count 0 (length (chapters p))))]
     @ concat (map (\<lambda>k. chapter_step dv je te p (k + 1) (chapters p ! k))
                 [0..<length (chapters p)])
     @ [Put (Progress 100),
        Put (Status (Batch_complete (length (chapters p)) (length (chapters p)))),
        Put (Log All_chapters_done), Put (Log Total_elapsed_time), Show Ask_open_directory,
        Set_processing False, Enable Generate_ebook_button True]
   \<and> (strip (get_content ch) = [] \<longrightarrow>
        chapter_step dv je te p i ch =
          [Put (Progress (progress_pct i (length (chapters p)))),
           Put (Status (Processing_count (i - 1) (length (chapters p)))),
           Put (Log (Skip_empty_chapter (batch_title ch i)))])
   \<and> (strip (get_content ch) \<noteq> [] \<and> (\<forall>a<MAX_RETRIES. je i a = Raises (err a)) \<longrightarrow>
        chapter_step dv je te p i ch =
          [Put (Progress (progress_pct i (length (chapters p)))),
           Put (Status (Processing_count (i - 1) (length (chapters p)))),
           Put (Log (Processing_chapter (batch_title ch i)))]
          @ map Job (snd (process_text_to_mp3 dv (je i) (get_content ch)
                            (batch_output_mp3 p i ch) (batch_output_lrc p i ch)
                            (batch_voice p) (batch_chars_per_line p) MAX_RETRIES))
          @ [Put (Log (Chapter_failed (batch_title ch i)))]
        \<and> fst (process_text_to_mp3 dv (je i) (get_content ch)
                  (batch_output_mp3 p i ch) (batch_output_lrc p i ch)
                  (batch_voice p) (batch_chars_per_line p) MAX_RETRIES) = False
        \<and> length (filter is_failure_log
                    (snd (process_text_to_mp3 dv (je i) (get_content ch)
                            (batch_output_mp3 p i ch) (batch_output_lrc p i ch)
                            (batch_voice p) (batch_chars_per_line p) MAX_RETRIES)))
            = MAX_RETRIES)"
proof -
  have a: "generate_ebook_thread dv je te p =
     [Put (Log (Start_ebook (length (chapters p)))),
      Put (Status (Processing_count 0 (length (chapters p))))]
     @ concat (map (\<lambda>k. chapter_step dv je te p (k + 1) (chapters p ! k))
                 [0..<length (chapters p)])
     @ [Put (Progress 100),
        Put (Status (Batch_complete (length (chapters p)) (length (chapters p)))),
        Put (Log All_chapters_done), Put (Log Total_elapsed_time), Show Ask_open_directory,
        Set_processing False, Enable Generate_ebook_button True]"
    by (simp add: generate_ebook_thread_def chapter_loop_concat add.commute)
  have b: "strip (get_content ch) = [] \<longrightarrow>
        chapter_step dv je te p i ch =
          [Put (Progress (progress_pct i (length (chapters p)))),
           Put (Status (Processing_count (i - 1) (length (chapters p)))),
           Put (Log (Skip_empty_chapter (batch_title ch i)))]"
    by (simp add: chapter_step_def Let_def)
  have c: "strip (get_content ch) \<noteq> [] \<and> (\<forall>a<MAX_RETRIES. je i a = Raises (err a)) \<longrightarrow>
        chapter_step dv je te p i ch =
          [Put (Progress (progress_pct i (length (chapters p)))),
           Put (Status (Processing_count (i - 1) (length (chapters p)))),
           Put (Log (Processing_chapter (batch_title ch i)))]
          @ map Job (snd (process_text_to_mp3 dv (je i) (get_content ch)
                            (batch_output_mp3 p i ch) (batch_output_lrc p i ch)
                            (batch_voice p) (batch_chars_per_line p) MAX_RETRIES))
          @ [Put (Log (Chapter_failed (batch_title ch i)))]
        \<and> fst (process_text_to_mp3 dv (je i) (get_content ch)
                  (batch_output_mp3 p i ch) (batch_output_lrc p i ch)
                  (batch_voice p) (batch_chars_per_line p) MAX_RETRIES) = False
        \<and> length (filter is_failure_log
                    (snd (process_text_to_mp3 dv (je i) (get_content ch)
                            (batch_output_mp3 p i ch) (batch_output_lrc p i ch)
                            (batch_voice p) (batch_chars_per_line p) MAX_RETRIES)))
            = MAX_RETRIES"
  proof
    assume h: "strip (get_content ch) \<noteq> [] \<and> (\<forall>a<MAX_RETRIES. je i a = Raises (err a))"
    then have h1: "strip (get_content ch) \<noteq> []"
      and h2: "\<forall>a<MAX_RETRIES. (je i) a = Raises (err a)"
      by simp_all
    note r = process_all_raise[where env = "je i" and err = err and n = MAX_RETRIES
        and tx = "get_content ch", OF h1 h2]
    have f: "fst (process_text_to_mp3 dv (je i) (get_content ch)
                  (batch_output_mp3 p i ch) (batch_output_lrc p i ch)
                  (batch_voice p) (batch_chars_per_line p) MAX_RETRIES) = False"
      by (rule r(1))
    have n: "length (filter is_failure_log
                    (snd (process_text_to_mp3 dv (je i) (get_content ch)
                            (batch_output_mp3 p i ch) (batch_output_lrc p i ch)
                            (batch_voice p) (batch_chars_per_line p) MAX_RETRIES)))
            = MAX_RETRIES"
      by (rule r(2))
    have s: "chapter_step dv je te p i ch =
          [Put (Progress (progress_pct i (length (chapters p)))),
           Put (Status (Processing_count (i - 1) (length (chapters p)))),
           Put (Log (Processing_chapter (batch_title ch i)))]
          @ map Job (snd (process_text_to_mp3 dv (je i) (get_content ch)
                            (batch_output_mp3 p i ch) (batch_output_lrc p i ch)
                            (batch_voice p) (batch_chars_per_line p) MAX_RETRIES))
          @ [Put (Log (Chapter_failed (batch_title ch i)))]"
      using h1 f by (simp add: chapter_step_def Let_def split_beta)
    show "chapter_step dv je te p i ch =
          [Put (Progress (progress_pct i (length (chapters p)))),
           Put (Status (Processing_count (i - 1) (length (chapters p)))),
           Put (Log (Processing_chapter (batch_title ch i)))]
          @ map Job (snd (process_text_to_mp3 dv (je i) (get_content ch)
                            (batch_output_mp3 p i ch) (batch_output_lrc p i ch)
                            (batch_voice p) (batch_chars_per_line p) MAX_RETRIES))
          @ [Put (Log (Chapter_failed (batch_title ch i)))]
        \<and> fst (process_text_to_mp3 dv (je i) (get_content ch)
                  (batch_output_mp3 p i ch) (batch_output_lrc p i ch)
                  (batch_voice p) (batch_chars_per_line p) MAX_RETRIES) = False
        \<and> length (filter is_failure_log
                    (snd (process_text_to_mp3 dv (je i) (get_content ch)
                            (batch_output_mp3 p i ch) (batch_output_lrc p i ch)
                            (batch_voice p) (batch_chars_per_line p) MAX_RETRIES)))
            = MAX_RETRIES"
      by (intro conjI s f n)
  qed
  show ?thesis by (intro conjI a b c)
qed

theorem batch_continues_past_skips_and_failures_witness:
  "chapter_step ascii_digit second_job_fails every_tagging_works three_chapters 1 blank_chapter
     = [Put (Progress (progress_pct 1 3)), Put (Status (Processing_count 0 3)),
        Put (Log (Skip_empty_chapter (u ''B'')))]
   \<and> last (chapter_step ascii_digit second_job_fails every_tagging_works three_chapters 2
             one_chapter)
     = Put (Log (Chapter_failed (u ''A/B:C'')))
   \<and> generate_ebook_thread ascii_digit second_job_fails every_tagging_works three_chapters
     = [Put (Log (Start_ebook 3)), Put (Status (Processing_count 0 3))]
       @ chapter_step ascii_digit second_job_fails every_tagging_works three_chapters 1
           blank_chapter
       @ chapter_step ascii_digit second_job_fails every_tagging_works three_chapters 2
           one_chapter
       @ chapter_step ascii_digit second_job_fails every_tagging_works three_chapters 3
           one_chapter
       @ [Put (Progress 100), Put (Status (Batch_complete 3 3)), Put (Log All_chapters_done),
          Put (Log Total_elapsed_time), Show Ask_open_directory, Set_processing False,
          Enable Generate_ebook_button True]"
proof -
  have len: "length (chapters three_chapters) = 3" by (simp add: three_chapters_def)
  have h1: "strip (get_content blank_chapter) = []"
    by (simp add: blank_chapter_def get_content_def strip_def py_isspace_def)
  have h2: "strip (get_content one_chapter) \<noteq> []
      \<and> (\<forall>a<MAX_RETRIES. second_job_fails 2 a = Raises (network_down a))"
    by (simp add: one_chapter_def get_content_def strip_def py_isspace_def u_def
        second_job_fails_def network_down_def)
  note t1 = batch_continues_past_skips_and_failures[of ascii_digit second_job_fails
      every_tagging_works three_chapters blank_chapter 1 network_down]
  note t2 = batch_continues_past_skips_and_failures[of ascii_digit second_job_fails
      every_tagging_works three_chapters one_chapter 2 network_down]
  have c1: "chapter_step ascii_digit second_job_fails every_tagging_works three_chapters 1
      blank_chapter
     = [Put (Progress (progress_pct 1 3)), Put (Status (Processing_count 0 3)),
        Put (Log (Skip_empty_chapter (u ''B'')))]"
    using t1 h1 unfolding len by (simp add: batch_title_def blank_chapter_def)
  have "chapter_step ascii_digit second_job_fails every_tagging_works three_chapters 2
      one_chapter
     = [Put (Progress (progress_pct 2 (length (chapters three_chapters)))),
           Put (Status (Processing_count (2 - 1) (length (chapters three_chapters)))),
           Put (Log (Processing_chapter (batch_title one_chapter 2)))]
          @ map Job (snd (process_text_to_mp3 ascii_digit (second_job_fails 2)
                            (get_content one_chapter)
                            (batch_output_mp3 three_chapters 2 one_chapter)
                            (batch_output_lrc three_chapters 2 one_chapter)
                            (batch_voice three_chapters) (batch_chars_per_line three_chapters)
                            MAX_RETRIES))
          @ [Put (Log (Chapter_failed (batch_title one_chapter 2)))]"
    using t2 h2 by blast
  then have c2: "last (chapter_step ascii_digit second_job_fails every_tagging_works
      three_chapters 2 one_chapter) = Put (Log (Chapter_failed (u ''A/B:C'')))"
    by (simp add: batch_title_def one_chapter_def)
  have c3: "generate_ebook_thread ascii_digit second_job_fails every_tagging_works
      three_chapters
     = [Put (Log (Start_ebook 3)), Put (Status (Processing_count 0 3))]
       @ chapter_step ascii_digit second_job_fails every_tagging_works three_chapters 1
           blank_chapter
       @ chapter_step ascii_digit second_job_fails every_tagging_works three_chapters 2
           one_chapter
       @ chapter_step ascii_digit second_job_fails every_tagging_works three_chapters 3
           one_chapter
       @ [Put (Progress 100), Put (Status (Batch_complete 3 3)), Put (Log All_chapters_done),
          Put (Log Total_elapsed_time), Show Ask_open_directory, Set_processing False,
          Enable Generate_ebook_button True]"
  proof -
    have l3: "[0..<3] = [0, Suc 0, 2]" by code_simp
    have nth: "chapters three_chapters ! 0 = blank_chapter"
      "chapters three_chapters ! Suc 0 = one_chapter"
      "chapters three_chapters ! 2 = one_chapter"
      by (simp_all add: three_chapters_def)
    have "generate_ebook_thread ascii_digit second_job_fails every_tagging_works
        three_chapters =
       [Put (Log (Start_ebook (length (chapters three_chapters)))),
        Put (Status (Processing_count 0 (length (chapters three_chapters))))]
       @ concat (map (\<lambda>k. chapter_step ascii_digit second_job_fails every_tagging_works
                          three_chapters (k + 1) (chapters three_chapters ! k))
                 [0..<length (chapters three_chapters)])
       @ [Put (Progress 100),
          Put (Status (Batch_complete (length (chapters three_chapters))
                         (length (chapters three_chapters)))),
          Put (Log All_chapters_done), Put (Log Total_elapsed_time), Show Ask_open_directory,
          Set_processing False, Enable Generate_ebook_button True]"
      using t1 by (rule conjunct1)
    then show ?thesis
      unfolding len l3 by (simp add: nth numeral_2_eq_2[symmetric])
  qed
  show ?thesis by (intro conjI c1 c2 c3)
qed

subsection \<open>Tagging failure after a successful synthesis\<close>

lemma job_true_writes:
  "process_text_to_mp3 dv env tx audio lrc_path v cpl n = (True, events) \<Longrightarrow>
   \<exists>earlier lrc. events = earlier @ [Write_audio audio, Write_lrc lrc_path lrc]"
  unfolding process_text_to_mp3_def by (rule attempts_true_writes)

lemma update_mp3_tag_failure:
  "tag_body te cover title art alb LYRIC_LANG = Inl e \<Longrightarrow>
   update_mp3_tag te cover title art alb = (False, [Tag_error_printed e, Tag_traceback])"
  by (simp add: update_mp3_tag_def)

lemma batch_ends_complete:
  "Put (Progress 100) \<in> set (generate_ebook_thread dv jb tb p)
   \<and> Put (Status (Batch_complete (length (chapters p)) (length (chapters p))))
       \<in> set (generate_ebook_thread dv jb tb p)"
  by (simp add: generate_ebook_thread_def)

lemma step_tag_failed:
  assumes "strip (get_content ch) \<noteq> []"
    and "process_text_to_mp3 dv (jb i) (get_content ch) (batch_output_mp3 p i ch)
           (batch_output_lrc p i ch) (batch_voice p) (batch_chars_per_line p) MAX_RETRIES
           = (True, events)"
    and "tag_body (tb i) (cover_data p) (batch_title ch i) (batch_artist p) (batch_album p)
           LYRIC_LANG = Inl e"
  shows "chapter_step dv jb tb p i ch =
           [Put (Progress (progress_pct i (length (chapters p)))),
            Put (Status (Processing_count (i - 1) (length (chapters p)))),
            Put (Log (Processing_chapter (batch_title ch i)))]
           @ map Job events
           @ [Tagger (Tag_error_printed e), Tagger Tag_traceback,
              Put (Log (Chapter_generated_tag_failed (batch_title ch i)))]"
  using assms by (simp add: chapter_step_def Let_def update_mp3_tag_failure)

text \<open>
  C9, as the code has it. When the job of a chapter returns \<open>True\<close> and the body of the
  tagger raises, the tagger prints the error and returns \<open>False\<close>, raising nothing. The
  events of the job end with the writing of the audio file and of the subtitle file, and
  nothing after them touches a file. In batch mode the body of the chapter ends with
  the log message that the generation succeeded and the tag failed: the chapter is
  reported as a success and not as a failure, and the batch goes on to progress 100 and
  to the status of a completed batch. In single-chapter mode the thread logs that the
  ID3 tag failed and sets the status to partly complete with the tag failed: progress
  stays at 80, and the run is reported neither as a success nor as a failure.
\<close>

theorem tagging_failure_reported_as_partial:
  "(process_text_to_mp3 dv je (content job) (output_mp3 job) (output_lrc job) (voice job)
       (chars_per_line job) MAX_RETRIES = (True, events)
     \<and> tag_body te cover (chapter_title job) (artist job) (album job) LYRIC_LANG = Inl e \<longrightarrow>
       update_mp3_tag te cover (chapter_title job) (artist job) (album job)
         = (False, [Tag_error_printed e, Tag_traceback])
       \<and> (\<exists>earlier lrc. events
             = earlier @ [Write_audio (output_mp3 job), Write_lrc (output_lrc job) lrc])
       \<and> convert_single_chapter_thread dv (Inr cover) je te job =
           [Put (Log (Start_chapter (chapter_title job))),
            Put (Status (Converting (chapter_title job))),
            Put (Progress 0), Set_processing True, Enable Convert_chapter_button False,
            Put (Log Generating_mp3)]
           @ map Job events
           @ [Put (Progress 80), Put (Log Mp3_done_adding_tags),
              Tagger (Tag_error_printed e), Tagger Tag_traceback,
              Put (Log Id3_tag_failed), Put (Status Partly_complete_tag_failed),
              Set_processing False, Enable Convert_chapter_button True]
       \<and> \<not> reports_failure (convert_single_chapter_thread dv (Inr cover) je te job)
       \<and> \<not> reports_success (convert_single_chapter_thread dv (Inr cover) je te job))
   \<and> (strip (get_content ch) \<noteq> []
       \<and> process_text_to_mp3 dv (jb i) (get_content ch) (batch_output_mp3 p i ch)
           (batch_output_lrc p i ch) (batch_voice p) (batch_chars_per_line p) MAX_RETRIES
           = (True, events')
       \<and> tag_body (tb i) (cover_data p) (batch_title ch i) (batch_artist p) (batch_album p)
           LYRIC_LANG = Inl e' \<longrightarrow>
       update_mp3_tag (tb i) (cover_data p) (batch_title ch i) (batch_artist p) (batch_album p)
         = (False, [Tag_error_printed e', Tag_traceback])
       \<and> (\<exists>earlier lrc. events'
             = earlier @ [Write_audio (batch_output_mp3 p i ch),
                          Write_lrc (batch_output_lrc p i ch) lrc])
       \<and> chapter_step dv jb tb p i ch =
           [Put (Progress (progress_pct i (length (chapters p)))),
            Put (Status (Processing_count (i - 1) (length (chapters p)))),
            Put (Log (Processing_chapter (batch_title ch i)))]
           @ map Job events'
           @ [Tagger (Tag_error_printed e'), Tagger Tag_traceback,
              Put (Log (Chapter_generated_tag_failed (batch_title ch i)))]
       \<and> reports_chapter_success (batch_title ch i) (chapter_step dv jb tb p i ch)
       \<and> \<not> reports_chapter_failure (batch_title ch i) (chapter_step dv jb tb p i ch))
   \<and> (j < length (chapters p) \<and> strip (get_content (chapters p ! j)) \<noteq> []
       \<and> process_text_to_mp3 dv (jb (j + 1)) (get_content (chapters p ! j))
           (batch_output_mp3 p (j + 1) (chapters p ! j))
           (batch_output_lrc p (j + 1) (chapters p ! j)) (batch_voice p)
           (batch_chars_per_line p) MAX_RETRIES
           = (True, events'')
       \<and> tag_body (tb (j + 1)) (cover_data p) (batch_title (chapters p ! j) (j + 1))
           (batch_artist p) (batch_album p) LYRIC_LANG = Inl e'' \<longrightarrow>
       reports_chapter_success (batch_title (chapters p ! j) (j + 1))
         (generate_ebook_thread dv jb tb p)
       \<and> Put (Progress 100) \<in> set (generate_ebook_thread dv jb tb p)
       \<and> Put (Status (Batch_complete (length (chapters p)) (length (chapters p))))
           \<in> set (generate_ebook_thread dv jb tb p))"
proof -
  have single: "update_mp3_tag te cover (chapter_title job) (artist job) (album job)
         = (False, [Tag_error_printed e, Tag_traceback])
       \<and> (\<exists>earlier lrc. events
             = earlier @ [Write_audio (output_mp3 job), Write_lrc (output_lrc job) lrc])
       \<and> convert_single_chapter_thread dv (Inr cover) je te job =
           [Put (Log (Start_chapter (chapter_title job))),
            Put (Status (Converting (chapter_title job))),
            Put (Progress 0), Set_processing True, Enable Convert_chapter_button False,
            Put (Log Generating_mp3)]
           @ map Job events
           @ [Put (Progress 80), Put (Log Mp3_done_adding_tags),
              Tagger (Tag_error_printed e), Tagger Tag_traceback,
              Put (Log Id3_tag_failed), Put (Status Partly_complete_tag_failed),
              Set_processing False, Enable Convert_chapter_button True]
       \<and> \<not> reports_failure (convert_single_chapter_thread dv (Inr cover) je te job)
       \<and> \<not> reports_success (convert_single_chapter_thread dv (Inr cover) je te job)"
    if synth: "process_text_to_mp3 dv je (content job) (output_mp3 job) (output_lrc job)
        (voice job) (chars_per_line job) MAX_RETRIES = (True, events)"
      and tag: "tag_body te cover (chapter_title job) (artist job) (album job) LYRIC_LANG = Inl e"
  proof -
    have t: "update_mp3_tag te cover (chapter_title job) (artist job) (album job)
         = (False, [Tag_error_printed e, Tag_traceback])"
      using tag by (rule update_mp3_tag_failure)
    have w: "\<exists>earlier lrc. events
             = earlier @ [Write_audio (output_mp3 job), Write_lrc (output_lrc job) lrc]"
      using synth by (rule job_true_writes)
    have tr: "convert_single_chapter_thread dv (Inr cover) je te job =
           [Put (Log (Start_chapter (chapter_title job))),
            Put (Status (Converting (chapter_title job))),
            Put (Progress 0), Set_processing True, Enable Convert_chapter_button False,
            Put (Log Generating_mp3)]
           @ map Job events
           @ [Put (Progress 80), Put (Log Mp3_done_adding_tags),
              Tagger (Tag_error_printed e), Tagger Tag_traceback,
              Put (Log Id3_tag_failed), Put (Status Partly_complete_tag_failed),
              Set_processing False, Enable Convert_chapter_button True]"
      by (simp add: convert_single_chapter_thread_def synth t)
    have nf: "\<not> reports_failure (convert_single_chapter_thread dv (Inr cover) je te job)"
      unfolding tr reports_failure_def by auto
    have ns: "\<not> reports_success (convert_single_chapter_thread dv (Inr cover) je te job)"
      unfolding tr reports_success_def by auto
    show ?thesis by (intro conjI t w tr nf ns)
  qed
  have batch: "update_mp3_tag (tb i) (cover_data p) (batch_title ch i) (batch_artist p)
           (batch_album p)
         = (False, [Tag_error_printed e', Tag_traceback])
       \<and> (\<exists>earlier lrc. events'
             = earlier @ [Write_audio (batch_output_mp3 p i ch),
                          Write_lrc (batch_output_lrc p i ch) lrc])
       \<and> chapter_step dv jb tb p i ch =
           [Put (Progress (progress_pct i (length (chapters p)))),
            Put (Status (Processing_count (i - 1) (length (chapters p)))),
            Put (Log (Processing_chapter (batch_title ch i)))]
           @ map Job events'
           @ [Tagger (Tag_error_printed e'), Tagger Tag_traceback,
              Put (Log (Chapter_generated_tag_failed (batch_title ch i)))]
       \<and> reports_chapter_success (batch_title ch i) (chapter_step dv jb tb p i ch)
       \<and> \<not> reports_chapter_failure (batch_title ch i) (chapter_step dv jb tb p i ch)"
    if ne: "strip (get_content ch) \<noteq> []"
      and synth: "process_text_to_mp3 dv (jb i) (get_content ch) (batch_output_mp3 p i ch)
           (batch_output_lrc p i ch) (batch_voice p) (batch_chars_per_line p) MAX_RETRIES
           = (True, events')"
      and tag: "tag_body (tb i) (cover_data p) (batch_title ch i) (batch_artist p)
           (batch_album p) LYRIC_LANG = Inl e'"
  proof -
    have t: "update_mp3_tag (tb i) (cover_data p) (batch_title ch i) (batch_artist p)
           (batch_album p) = (False, [Tag_error_printed e', Tag_traceback])"
      using tag by (rule update_mp3_tag_failure)
    have w: "\<exists>earlier lrc. events'
             = earlier @ [Write_audio (batch_output_mp3 p i ch),
                          Write_lrc (batch_output_lrc p i ch) lrc]"
      using synth by (rule job_true_writes)
    have tr: "chapter_step dv jb tb p i ch =
           [Put (Progress (progress_pct i (length (chapters p)))),
            Put (Status (Processing_count (i - 1) (length (chapters p)))),
            Put (Log (Processing_chapter (batch_title ch i)))]
           @ map Job events'
           @ [Tagger (Tag_error_printed e'), Tagger Tag_traceback,
              Put (Log (Chapter_generated_tag_failed (batch_title ch i)))]"
      using ne synth tag by (rule step_tag_failed)
    have s: "reports_chapter_success (batch_title ch i) (chapter_step dv jb tb p i ch)"
      unfolding tr reports_chapter_success_def by simp
    have nf: "\<not> reports_chapter_failure (batch_title ch i) (chapter_step dv jb tb p i ch)"
      unfolding tr reports_chapter_failure_def by auto
    show ?thesis by (intro conjI t w tr s nf)
  qed
  have thread: "reports_chapter_success (batch_title (chapters p ! j) (j + 1))
         (generate_ebook_thread dv jb tb p)
       \<and> Put (Progress 100) \<in> set (generate_ebook_thread dv jb tb p)
       \<and> Put (Status (Batch_complete (length (chapters p)) (length (chapters p))))
           \<in> set (generate_ebook_thread dv jb tb p)"
    if j: "j < length (chapters p)" and ne: "strip (get_content (chapters p ! j)) \<noteq> []"
      and synth: "process_text_to_mp3 dv (jb (j + 1)) (get_content (chapters p ! j))
           (batch_output_mp3 p (j + 1) (chapters p ! j))
           (batch_output_lrc p (j + 1) (chapters p ! j)) (batch_voice p)
           (batch_chars_per_line p) MAX_RETRIES
           = (True, events'')"
      and tag: "tag_body (tb (j + 1)) (cover_data p) (batch_title (chapters p ! j) (j + 1))
           (batch_artist p) (batch_album p) LYRIC_LANG = Inl e''"
  proof -
    have tr: "chapter_step dv jb tb p (j + 1) (chapters p ! j) =
           [Put (Progress (progress_pct (j + 1) (length (chapters p)))),
            Put (Status (Processing_count (j + 1 - 1) (length (chapters p)))),
            Put (Log (Processing_chapter (batch_title (chapters p ! j) (j + 1))))]
           @ map Job events''
           @ [Tagger (Tag_error_printed e''), Tagger Tag_traceback,
              Put (Log (Chapter_generated_tag_failed (batch_title (chapters p ! j) (j + 1))))]"
      using ne synth tag by (rule step_tag_failed)
    obtain before after where "generate_ebook_thread dv jb tb p
        = before @ chapter_step dv jb tb p (j + 1) (chapters p ! j) @ after"
      using step_in_thread j by blast
    then have "Put (Log (Chapter_generated_tag_failed (batch_title (chapters p ! j) (j + 1))))
        \<in> set (generate_ebook_thread dv jb tb p)"
      unfolding tr by simp
    then have "reports_chapter_success (batch_title (chapters p ! j) (j + 1))
         (generate_ebook_thread dv jb tb p)"
      by (simp add: reports_chapter_success_def)
    then show ?thesis using batch_ends_complete[of dv jb tb p] by blast
  qed
  show ?thesis
    using single batch thread by (intro conjI impI) blast+
qed

theorem tagging_failure_reported_as_partial_witness:
  "convert_single_chapter_thread ascii_digit (Inr None) first_try_completes tagging_breaks one_job
     = [Put (Log (Start_chapter (u ''A/B:C''))), Put (Status (Converting (u ''A/B:C''))),
        Put (Progress 0), Set_processing True, Enable Convert_chapter_button False,
        Put (Log Generating_mp3),
        Job (Communicate (u ''hello'') (u ''v'')),
        Job (Write_audio (u ''out'', u ''ABC.mp3'')),
        Job (Write_lrc (u ''out'', u ''ABC.lrc'') []),
        Put (Progress 80), Put (Log Mp3_done_adding_tags),
        Tagger (Tag_error_printed (Exn (u ''corrupt''))), Tagger Tag_traceback,
        Put (Log Id3_tag_failed), Put (Status Partly_complete_tag_failed),
        Set_processing False, Enable Convert_chapter_button True]
   \<and> last (chapter_step ascii_digit every_job_completes every_tagging_breaks (book_of 1) 1
             one_chapter)
     = Put (Log (Chapter_generated_tag_failed (u ''A/B:C'')))
   \<and> reports_chapter_success (u ''A/B:C'')
        (generate_ebook_thread ascii_digit every_job_completes every_tagging_breaks (book_of 1))
   \<and> Put (Progress 100)
        \<in> set (generate_ebook_thread ascii_digit every_job_completes every_tagging_breaks
                 (book_of 1))
   \<and> Put (Status (Batch_complete 1 1))
        \<in> set (generate_ebook_thread ascii_digit every_job_completes every_tagging_breaks
                 (book_of 1))"
proof -
  have conv: "convert_srt_to_lrc ascii_digit [] 15 = Inr []"
    by (simp add: convert_srt_to_lrc_def convert_blocks_def srt_blocks_def strip_def
        lrc_of_items_def sort_items_def block_item_def)
  have run: "process_text_to_mp3 ascii_digit first_try_completes tx audio lrc v 15 MAX_RETRIES
      = (True, [Communicate tx v, Write_audio audio, Write_lrc lrc []])"
    if "strip tx \<noteq> []" for tx audio lrc v
  proof -
    have "tx \<noteq> []" using that by (auto simp: strip_def)
    then show ?thesis
      using that conv
      by (simp add: process_text_to_mp3_def MAX_RETRIES_def upt_rec[of 0]
          first_try_completes_def)
  qed
  have hello: "strip (u ''hello'') \<noteq> []" by (simp add: strip_def py_isspace_def u_def)
  have s1: "process_text_to_mp3 ascii_digit first_try_completes (content one_job)
       (output_mp3 one_job) (output_lrc one_job) (voice one_job) (chars_per_line one_job)
       MAX_RETRIES
      = (True, [Communicate (u ''hello'') (u ''v''), Write_audio (u ''out'', u ''ABC.mp3''),
                Write_lrc (u ''out'', u ''ABC.lrc'') []])
     \<and> tag_body tagging_breaks None (chapter_title one_job) (artist one_job) (album one_job)
      LYRIC_LANG = Inl (Exn (u ''corrupt''))"
    using run[OF hello] by (simp add: one_job_def tag_body_def tagging_breaks_def)
  have same: "every_job_completes i = first_try_completes" for i
    by (rule ext) (simp add: every_job_completes_def first_try_completes_def)
  have s2: "strip (get_content one_chapter) \<noteq> []
       \<and> process_text_to_mp3 ascii_digit (every_job_completes 1) (get_content one_chapter)
           (batch_output_mp3 (book_of 1) 1 one_chapter)
           (batch_output_lrc (book_of 1) 1 one_chapter) (batch_voice (book_of 1))
           (batch_chars_per_line (book_of 1)) MAX_RETRIES
           = (True, [Communicate (u ''hello'') (u ''v''),
                     Write_audio (batch_output_mp3 (book_of 1) 1 one_chapter),
                     Write_lrc (batch_output_lrc (book_of 1) 1 one_chapter) []])
       \<and> tag_body (every_tagging_breaks 1) (cover_data (book_of 1)) (batch_title one_chapter 1)
           (batch_artist (book_of 1)) (batch_album (book_of 1)) LYRIC_LANG
           = Inl (Exn (u ''corrupt''))"
    using run[OF hello] hello
    by (simp add: same get_content_def one_chapter_def book_of_def tag_body_def
        tagging_breaks_def every_tagging_breaks_def)
  have ch0: "chapters (book_of 1) ! 0 = one_chapter" by (simp add: book_of_def)
  have s3: "0 < length (chapters (book_of 1))
       \<and> strip (get_content (chapters (book_of 1) ! 0)) \<noteq> []
       \<and> process_text_to_mp3 ascii_digit (every_job_completes (0 + 1))
           (get_content (chapters (book_of 1) ! 0))
           (batch_output_mp3 (book_of 1) (0 + 1) (chapters (book_of 1) ! 0))
           (batch_output_lrc (book_of 1) (0 + 1) (chapters (book_of 1) ! 0))
           (batch_voice (book_of 1)) (batch_chars_per_line (book_of 1)) MAX_RETRIES
           = (True, [Communicate (u ''hello'') (u ''v''),
                     Write_audio (batch_output_mp3 (book_of 1) 1 one_chapter),
                     Write_lrc (batch_output_lrc (book_of 1) 1 one_chapter) []])
       \<and> tag_body (every_tagging_breaks (0 + 1)) (cover_data (book_of 1))
           (batch_title (chapters (book_of 1) ! 0) (0 + 1))
           (batch_artist (book_of 1)) (batch_album (book_of 1)) LYRIC_LANG
           = Inl (Exn (u ''corrupt''))"
    unfolding ch0 using s2 by (simp add: book_of_def)
  note t = tagging_failure_reported_as_partial[of ascii_digit first_try_completes one_job
      "[Communicate (u ''hello'') (u ''v''), Write_audio (u ''out'', u ''ABC.mp3''),
        Write_lrc (u ''out'', u ''ABC.lrc'') []]"
      tagging_breaks None "Exn (u ''corrupt'')" one_chapter every_job_completes 1 "book_of 1"
      "[Communicate (u ''hello'') (u ''v''),
        Write_audio (batch_output_mp3 (book_of 1) 1 one_chapter),
        Write_lrc (batch_output_lrc (book_of 1) 1 one_chapter) []]"
      every_tagging_breaks "Exn (u ''corrupt'')" 0
      "[Communicate (u ''hello'') (u ''v''),
        Write_audio (batch_output_mp3 (book_of 1) 1 one_chapter),
        Write_lrc (batch_output_lrc (book_of 1) 1 one_chapter) []]"
      "Exn (u ''corrupt'')"]
  note t1 = t[THEN conjunct1, THEN mp, OF s1]
  note t2 = t[THEN conjunct2, THEN conjunct1, THEN mp, OF s2]
  note t3 = t[THEN conjunct2, THEN conjunct2, THEN mp, OF s3]
  have c1: "convert_single_chapter_thread ascii_digit (Inr None) first_try_completes
       tagging_breaks one_job =
           [Put (Log (Start_chapter (chapter_title one_job))),
            Put (Status (Converting (chapter_title one_job))),
            Put (Progress 0), Set_processing True, Enable Convert_chapter_button False,
            Put (Log Generating_mp3)]
           @ map Job [Communicate (u ''hello'') (u ''v''), Write_audio (u ''out'', u ''ABC.mp3''),
                Write_lrc (u ''out'', u ''ABC.lrc'') []]
           @ [Put (Progress 80), Put (Log Mp3_done_adding_tags),
              Tagger (Tag_error_printed (Exn (u ''corrupt''))), Tagger Tag_traceback,
              Put (Log Id3_tag_failed), Put (Status Partly_complete_tag_failed),
              Set_processing False, Enable Convert_chapter_button True]"
    by (rule t1[THEN conjunct2, THEN conjunct2, THEN conjunct1])
  have c2: "chapter_step ascii_digit every_job_completes every_tagging_breaks (book_of 1) 1
       one_chapter =
           [Put (Progress (progress_pct 1 (length (chapters (book_of 1))))),
            Put (Status (Processing_count (1 - 1) (length (chapters (book_of 1))))),
            Put (Log (Processing_chapter (batch_title one_chapter 1)))]
           @ map Job [Communicate (u ''hello'') (u ''v''),
                Write_audio (batch_output_mp3 (book_of 1) 1 one_chapter),
                Write_lrc (batch_output_lrc (book_of 1) 1 one_chapter) []]
           @ [Tagger (Tag_error_printed (Exn (u ''corrupt''))), Tagger Tag_traceback,
              Put (Log (Chapter_generated_tag_failed (batch_title one_chapter 1)))]"
    by (rule t2[THEN conjunct2, THEN conjunct2, THEN conjunct1])
  have title: "batch_title (chapters (book_of 1) ! 0) (0 + 1) = u ''A/B:C''"
    by (simp add: book_of_def batch_title_def one_chapter_def)
  have len: "length (chapters (book_of 1)) = 1" by (simp add: book_of_def)
  have c3: "reports_chapter_success (u ''A/B:C'')
        (generate_ebook_thread ascii_digit every_job_completes every_tagging_breaks (book_of 1))"
    using t3[THEN conjunct1] unfolding title .
  have c4: "Put (Progress 100)
        \<in> set (generate_ebook_thread ascii_digit every_job_completes every_tagging_breaks
                 (book_of 1))"
    by (rule t3[THEN conjunct2, THEN conjunct1])
  have c5: "Put (Status (Batch_complete 1 1))
        \<in> set (generate_ebook_thread ascii_digit every_job_completes every_tagging_breaks
                 (book_of 1))"
    using t3[THEN conjunct2, THEN conjunct2] unfolding len .
  have d1: "convert_single_chapter_thread ascii_digit (Inr None) first_try_completes tagging_breaks one_job
     = [Put (Log (Start_chapter (u ''A/B:C''))), Put (Status (Converting (u ''A/B:C''))),
        Put (Progress 0), Set_processing True, Enable Convert_chapter_button False,
        Put (Log Generating_mp3),
        Job (Communicate (u ''hello'') (u ''v'')),
        Job (Write_audio (u ''out'', u ''ABC.mp3'')),
        Job (Write_lrc (u ''out'', u ''ABC.lrc'') []),
        Put (Progress 80), Put (Log Mp3_done_adding_tags),
        Tagger (Tag_error_printed (Exn (u ''corrupt''))), Tagger Tag_traceback,
        Put (Log Id3_tag_failed), Put (Status Partly_complete_tag_failed),
        Set_processing False, Enable Convert_chapter_button True]"
    unfolding c1 by (simp add: one_job_def)
  have d2: "last (chapter_step ascii_digit every_job_completes every_tagging_breaks (book_of 1) 1
             one_chapter)
     = Put (Log (Chapter_generated_tag_failed (u ''A/B:C'')))"
    unfolding c2 by (simp add: batch_title_def one_chapter_def)
  show ?thesis
    by (intro conjI d1 d2 c3 c4 c5)
qed

text \<open>
  The run that shows where C9 as stated fails: the job of the chapter returns \<open>True\<close>
  and writes both files, the tagger returns \<open>False\<close>, and the single-chapter thread does
  not report success: its last status is partly complete with the tag failed, and the
  status of a completed conversion is never put on the queue.
\<close>

theorem tagging_failure_not_reported_as_success:
  "fst (process_text_to_mp3 ascii_digit first_try_completes (content one_job)
          (output_mp3 one_job) (output_lrc one_job) (voice one_job) (chars_per_line one_job)
          MAX_RETRIES)
   \<and> \<not> fst (update_mp3_tag tagging_breaks None (chapter_title one_job) (artist one_job)
               (album one_job))
   \<and> Put (Status Partly_complete_tag_failed)
        \<in> set (convert_single_chapter_thread ascii_digit (Inr None) first_try_completes
                 tagging_breaks one_job)
   \<and> Put (Progress 100)
        \<notin> set (convert_single_chapter_thread ascii_digit (Inr None) first_try_completes
                 tagging_breaks one_job)
   \<and> \<not> reports_success (convert_single_chapter_thread ascii_digit (Inr None)
                           first_try_completes tagging_breaks one_job)"
proof -
  have conv: "convert_srt_to_lrc ascii_digit [] 15 = Inr []"
    by (simp add: convert_srt_to_lrc_def convert_blocks_def srt_blocks_def strip_def
        lrc_of_items_def sort_items_def block_item_def)
  have hello: "strip (u ''hello'') \<noteq> []" "u ''hello'' \<noteq> []"
    by (simp_all add: strip_def py_isspace_def u_def)
  have s1: "process_text_to_mp3 ascii_digit first_try_completes (content one_job)
       (output_mp3 one_job) (output_lrc one_job) (voice one_job) (chars_per_line one_job)
       MAX_RETRIES
      = (True, [Communicate (u ''hello'') (u ''v''), Write_audio (u ''out'', u ''ABC.mp3''),
                Write_lrc (u ''out'', u ''ABC.lrc'') []])"
    using hello conv
    by (simp add: process_text_to_mp3_def MAX_RETRIES_def upt_rec[of 0]
        first_try_completes_def one_job_def)
  have t1: "update_mp3_tag tagging_breaks None (chapter_title one_job) (artist one_job)
       (album one_job) = (False, [Tag_error_printed (Exn (u ''corrupt'')), Tag_traceback])"
    by (simp add: update_mp3_tag_def tag_body_def tagging_breaks_def)
  have tr: "convert_single_chapter_thread ascii_digit (Inr None) first_try_completes
       tagging_breaks one_job
     = [Put (Log (Start_chapter (chapter_title one_job))),
        Put (Status (Converting (chapter_title one_job))),
        Put (Progress 0), Set_processing True, Enable Convert_chapter_button False,
        Put (Log Generating_mp3),
        Job (Communicate (u ''hello'') (u ''v'')),
        Job (Write_audio (u ''out'', u ''ABC.mp3'')),
        Job (Write_lrc (u ''out'', u ''ABC.lrc'') []),
        Put (Progress 80), Put (Log Mp3_done_adding_tags),
        Tagger (Tag_error_printed (Exn (u ''corrupt''))), Tagger Tag_traceback,
        Put (Log Id3_tag_failed), Put (Status Partly_complete_tag_failed),
        Set_processing False, Enable Convert_chapter_button True]"
    by (simp add: convert_single_chapter_thread_def s1 t1)
  show ?thesis
    unfolding tr reports_success_def by (simp add: s1 t1)
qed

subsection \<open>Requests while a conversion is running\<close>

text \<open>
  C4 on the code. A batch is started from the idle application and runs; the handler of
  the batch request has set \<open>processing\<close>. A single-chapter request issued now is not
  rejected: \<open>convert_chapter_to_mp3\<close> never reads \<open>processing\<close>, shows no busy warning
  and, on a file system where no call raises, starts a second worker thread beside the
  batch. A second batch request in the same state is rejected with the busy warning and
  starts nothing.
\<close>

theorem single_chapter_request_starts_during_batch:
  "processing (start_generate_ebook disk_ok idle_app says_yes)
   \<and> threads (start_generate_ebook disk_ok idle_app says_yes)
       = [Generate_ebook_thread (book_of 1)]
   \<and> threads (convert_chapter_to_mp3 disk_ok (start_generate_ebook disk_ok idle_app says_yes)
                 0 says_yes)
       = [Generate_ebook_thread (book_of 1), Single_chapter_thread one_job]
   \<and> shown (convert_chapter_to_mp3 disk_ok (start_generate_ebook disk_ok idle_app says_yes)
               0 says_yes)
       = [Ask_confirm, Ask_confirm]
   \<and> raised (convert_chapter_to_mp3 disk_ok (start_generate_ebook disk_ok idle_app says_yes)
                0 says_yes)
       = []
   \<and> threads (start_generate_ebook disk_ok (start_generate_ebook disk_ok idle_app says_yes)
                 says_yes)
       = [Generate_ebook_thread (book_of 1)]
   \<and> shown (start_generate_ebook disk_ok (start_generate_ebook disk_ok idle_app says_yes)
               says_yes)
       = [Ask_confirm, Warning_busy]"
proof -
  have hello: "strip (u ''hello'') \<noteq> []" by (simp add: strip_def py_isspace_def u_def)
  have out: "u ''out'' \<noteq> []" by (simp add: u_def)
  have abc: "strip_illegal (u ''A/B:C'') = u ''ABC''"
    by (simp add: strip_illegal_def illegal_char_def u_def)
  have abc_ne: "u ''ABC'' \<noteq> []" by (simp add: u_def)
  have cat: "u ''ABC'' @ u ''.mp3'' = u ''ABC.mp3''" "u ''ABC'' @ u ''.lrc'' = u ''ABC.lrc''"
    by (simp_all add: u_def)
  have st1: "start_generate_ebook disk_ok idle_app says_yes =
     \<lparr>processing = True, epub_chapters = Some [one_chapter], output_dir_var = u ''out'',
      voice_var = u ''v'', chars_per_line_var = 15, artist_var = u ''a'', album_var = u ''b'',
      threads = [Generate_ebook_thread (book_of 1)], shown = [Ask_confirm], raised = []\<rparr>"
    using out
    by (simp add: start_generate_ebook_def idle_app_def says_yes_def show_dialog_def Let_def
        book_of_def disk_ok_def)
  have st2: "convert_chapter_to_mp3 disk_ok (start_generate_ebook disk_ok idle_app says_yes)
       0 says_yes =
     \<lparr>processing = True, epub_chapters = Some [one_chapter], output_dir_var = u ''out'',
      voice_var = u ''v'', chars_per_line_var = 15, artist_var = u ''a'', album_var = u ''b'',
      threads = [Generate_ebook_thread (book_of 1), Single_chapter_thread one_job],
      shown = [Ask_confirm, Ask_confirm], raised = []\<rparr>"
    unfolding st1 using out hello abc abc_ne cat
    by (simp add: convert_chapter_to_mp3_def says_yes_def show_dialog_def Let_def
        one_chapter_def get_content_def single_title_def single_safe_title_def one_job_def
        disk_ok_def)
  have st3: "start_generate_ebook disk_ok (start_generate_ebook disk_ok idle_app says_yes)
       says_yes =
     \<lparr>processing = True, epub_chapters = Some [one_chapter], output_dir_var = u ''out'',
      voice_var = u ''v'', chars_per_line_var = 15, artist_var = u ''a'', album_var = u ''b'',
      threads = [Generate_ebook_thread (book_of 1)], shown = [Ask_confirm, Warning_busy],
      raised = []\<rparr>"
    unfolding st1 by (simp add: start_generate_ebook_def show_dialog_def)
  show ?thesis
    unfolding st2 st3 unfolding st1 by simp
qed

subsection \<open>Progress values\<close>

text \<open>
  The rounding of the model in terms of real numbers: \<open>round_half_even\<close> is rounding
  to the nearest integer, \<open>binade\<close> finds the power of two below the quotient, and
  \<open>round_double\<close> keeps 53 significant bits. Rounding is monotone and its relative error
  is at most \<open>1 / 2 ^ 53\<close>; so the progress values never decrease, never exceed 100, and
  are the exact floor or one less.
\<close>

lemma rhe_rne: "0 < q \<Longrightarrow> round_half_even p q = rne (of_int p / of_int q)"
proof -
  assume q: "0 < q"
  define x where "x = real_of_int p / real_of_int q"
  have f: "\<lfloor>x\<rfloor> = p div q" unfolding x_def by (rule floor_divide_of_int_eq)
  have d: "x - real_of_int (p div q) = real_of_int (p mod q) / real_of_int q"
    unfolding x_def using q by (simp add: field_simps flip: of_int_mult of_int_add)
  have c1: "(x - real_of_int (p div q) < 1 / 2) = (2 * (p mod q) < q)"
  proof -
    have "(real_of_int (p mod q) / real_of_int q < 1 / 2)
        = (real_of_int (2 * (p mod q)) < real_of_int q)"
      using q by (simp add: field_simps)
    also have "\<dots> = (2 * (p mod q) < q)" by (rule of_int_less_iff)
    finally show ?thesis unfolding d .
  qed
  have c2: "(1 / 2 < x - real_of_int (p div q)) = (q < 2 * (p mod q))"
  proof -
    have "(1 / 2 < real_of_int (p mod q) / real_of_int q)
        = (real_of_int q < real_of_int (2 * (p mod q)))"
      using q by (simp add: field_simps)
    also have "\<dots> = (q < 2 * (p mod q))" by (rule of_int_less_iff)
    finally show ?thesis unfolding d .
  qed
  have "round_half_even p q = rne x"
    unfolding round_half_even_def rne_def Let_def f c1 c2 by simp
  then show ?thesis unfolding x_def .
qed

lemma rne_int: "rne (of_int n) = n"
  by (simp add: rne_def)

lemma rne_floor: "\<lfloor>x\<rfloor> \<le> rne x" "rne x \<le> \<lfloor>x\<rfloor> + 1"
  by (simp_all add: rne_def Let_def)

lemma rne_mono:
  assumes "x \<le> y"
  shows "rne x \<le> rne y"
proof (cases "\<lfloor>x\<rfloor> = \<lfloor>y\<rfloor>")
  case True
  then show ?thesis using assms by (auto simp: rne_def Let_def)
next
  case False
  then have "\<lfloor>x\<rfloor> < \<lfloor>y\<rfloor>" using floor_mono[OF assms] by simp
  then show ?thesis using rne_floor(2)[of x] rne_floor(1)[of y] by linarith
qed

lemma two_powr_nat: "0 \<le> d \<Longrightarrow> real_of_int (2 ^ nat d) = 2 powr real_of_int d"
  using powr_int by simp

lemma two_powr_neg: "2 powr (- x) = 1 / 2 powr (x::real)"
  by (simp add: powr_minus_divide)

lemma bitlen_pos: "0 < p \<Longrightarrow> 0 < bitlen p"
  using bitlen_eq_zero_iff[of p] bitlen_nonneg[of p] by linarith

lemma bitlen_real_bounds:
  assumes "0 < p"
  shows "2 powr real_of_int (bitlen p - 1) \<le> real_of_int p"
    and "real_of_int p < 2 powr real_of_int (bitlen p)"
proof -
  have b: "0 \<le> bitlen p - 1" "0 \<le> bitlen p" using bitlen_pos[OF assms] by simp_all
  have "real_of_int (2 ^ nat (bitlen p - 1)) \<le> real_of_int p"
    using bitlen_bounds[OF assms] by (simp only: of_int_le_iff)
  then show "2 powr real_of_int (bitlen p - 1) \<le> real_of_int p"
    by (simp only: two_powr_nat[OF b(1)])
  have "real_of_int p < real_of_int (2 ^ nat (bitlen p))"
    using bitlen_bounds[OF assms] by (simp only: of_int_less_iff)
  then show "real_of_int p < 2 powr real_of_int (bitlen p)"
    by (simp only: two_powr_nat[OF b(2)])
qed

lemma two_powr_nat': "0 \<le> d \<Longrightarrow> (2::real) ^ nat d = 2 powr real_of_int d"
  using two_powr_nat[of d] by simp

lemma scaled_ratio:
  assumes "0 < q"
  shows "real_of_int (p * 2 ^ nat (- e)) / real_of_int (q * 2 ^ nat e)
       = real_of_int p / real_of_int q * 2 powr (- real_of_int e)"
proof (cases "0 \<le> e")
  case True
  then have n: "nat (- e) = 0" by simp
  show ?thesis
    by (simp add: n two_powr_nat'[OF True] two_powr_neg)
next
  case False
  then have n: "nat e = 0" and pos: "0 \<le> - e" by simp_all
  show ?thesis
    using two_powr_nat'[OF pos] by (simp add: n)
qed

lemma scaled_le:
  assumes "0 < q"
  shows "(q * 2 ^ nat d \<le> p * 2 ^ nat (- d))
       = (2 powr real_of_int d \<le> real_of_int p / real_of_int q)"
proof -
  have pos: "0 < real_of_int (q * 2 ^ nat d)" using assms by simp
  have "(q * 2 ^ nat d \<le> p * 2 ^ nat (- d))
      = (real_of_int (q * 2 ^ nat d) \<le> real_of_int (p * 2 ^ nat (- d)))"
    by (simp only: of_int_le_iff)
  also have "\<dots> = (1 \<le> real_of_int (p * 2 ^ nat (- d)) / real_of_int (q * 2 ^ nat d))"
    using pos by (simp only: le_divide_eq_1_pos)
  also have "\<dots> = (1 \<le> real_of_int p / real_of_int q * 2 powr (- real_of_int d))"
    by (simp only: scaled_ratio[OF assms])
  also have "\<dots> = (2 powr real_of_int d \<le> real_of_int p / real_of_int q)"
    using assms by (simp add: two_powr_neg field_simps)
  finally show ?thesis .
qed

lemma binade_correct:
  assumes "0 < p" and "0 < q"
  shows "2 powr real_of_int (binade p q) \<le> real_of_int p / real_of_int q"
    and "real_of_int p / real_of_int q < 2 powr real_of_int (binade p q + 1)"
proof -
  define d where "d = bitlen p - bitlen q"
  have rp: "0 < real_of_int p" and rq: "0 < real_of_int q" using assms by simp_all
  note bp = bitlen_real_bounds[OF assms(1)]
  note bq = bitlen_real_bounds[OF assms(2)]
  have lo: "2 powr real_of_int (d - 1) \<le> real_of_int p / real_of_int q"
  proof -
    have "2 powr real_of_int (d - 1) * real_of_int q
        \<le> 2 powr real_of_int (d - 1) * 2 powr real_of_int (bitlen q)"
      using bq(2) by simp
    also have "\<dots> = 2 powr real_of_int (bitlen p - 1)"
      by (simp add: d_def flip: powr_add)
    also have "\<dots> \<le> real_of_int p" by (rule bp(1))
    finally show ?thesis using rq by (simp add: pos_le_divide_eq)
  qed
  have hi: "real_of_int p / real_of_int q < 2 powr real_of_int (d + 1)"
  proof -
    have "real_of_int p < 2 powr real_of_int (bitlen p)" by (rule bp(2))
    also have "\<dots> = 2 powr real_of_int (d + 1) * 2 powr real_of_int (bitlen q - 1)"
      by (simp add: d_def flip: powr_add)
    also have "\<dots> \<le> 2 powr real_of_int (d + 1) * real_of_int q"
      using bq(1) by simp
    finally show ?thesis using rq by (simp add: pos_divide_less_eq)
  qed
  have b: "binade p q = (if 2 powr real_of_int d \<le> real_of_int p / real_of_int q then d else d - 1)"
    unfolding binade_def Let_def d_def[symmetric] scaled_le[OF assms(2)] ..
  show "2 powr real_of_int (binade p q) \<le> real_of_int p / real_of_int q"
    using lo by (simp add: b)
  show "real_of_int p / real_of_int q < 2 powr real_of_int (binade p q + 1)"
    using hi by (auto simp: b)
qed

lemma binade_le:
  assumes "x \<le> y"
    and "2 powr real_of_int k \<le> x" and "y < 2 powr real_of_int (k' + 1)"
  shows "k \<le> k'"
proof (rule ccontr)
  assume "\<not> k \<le> k'"
  then have "real_of_int (k' + 1) \<le> real_of_int k" by simp
  then have "2 powr real_of_int (k' + 1) \<le> 2 powr real_of_int k"
    by (intro powr_mono) simp_all
  then show False using assms by linarith
qed

lemma round_double_val:
  assumes "0 < p" and "0 < q"
  shows "val (round_double p q)
       = real_of_int (rne (real_of_int p / real_of_int q
                            * 2 powr (- real_of_int (binade p q - 52))))
         * 2 powr real_of_int (binade p q - 52)"
proof -
  define e where "e = binade p q - 52"
  have s: "0 < q * 2 ^ nat e" using assms(2) by simp
  have "round_double p q = (round_half_even (p * 2 ^ nat (- e)) (q * 2 ^ nat e), e)"
    using assms(1) unfolding round_double_def Let_def e_def[symmetric] by simp
  then have "val (round_double p q)
      = real_of_int (round_half_even (p * 2 ^ nat (- e)) (q * 2 ^ nat e)) * 2 powr real_of_int e"
    by (simp only: val_def prod.case)
  also have "\<dots> = real_of_int (rne (real_of_int p / real_of_int q * 2 powr (- real_of_int e)))
      * 2 powr real_of_int e"
    by (simp only: rhe_rne[OF s] scaled_ratio[OF assms(2)])
  finally show ?thesis unfolding e_def .
qed

lemma round_double_range:
  assumes "0 < p" and "0 < q"
  shows "2 powr real_of_int (binade p q) \<le> val (round_double p q)"
    and "val (round_double p q) \<le> 2 powr real_of_int (binade p q + 1)"
proof -
  define k where "k = binade p q"
  define y where "y = real_of_int p / real_of_int q * 2 powr (- real_of_int (k - 52))"
  have u: "0 < 2 powr real_of_int (k - 52)" by simp
  have lo: "real_of_int (2 ^ 52) \<le> y"
  proof -
    have "2 powr real_of_int k * 2 powr (- real_of_int (k - 52)) \<le> y"
      unfolding y_def k_def by (intro mult_right_mono binade_correct(1)[OF assms]) simp
    then show ?thesis by (simp flip: powr_add)
  qed
  have hi: "y \<le> real_of_int (2 ^ 53)"
  proof -
    have "y \<le> 2 powr real_of_int (k + 1) * 2 powr (- real_of_int (k - 52))"
      unfolding y_def k_def
      by (intro mult_right_mono less_imp_le[OF binade_correct(2)[OF assms]]) simp
    then show ?thesis by (simp flip: powr_add)
  qed
  have m1: "2 ^ 52 \<le> rne y" using rne_mono[OF lo] by (simp only: rne_int)
  have m2: "rne y \<le> 2 ^ 53" using rne_mono[OF hi] by (simp only: rne_int)
  have v: "val (round_double p q) = real_of_int (rne y) * 2 powr real_of_int (k - 52)"
    unfolding y_def k_def by (rule round_double_val[OF assms])
  have "real_of_int (2 ^ 52) * 2 powr real_of_int (k - 52)
      \<le> real_of_int (rne y) * 2 powr real_of_int (k - 52)"
    using m1 by (intro mult_right_mono) (simp_all only: of_int_le_iff powr_ge_zero)
  then show "2 powr real_of_int (binade p q) \<le> val (round_double p q)"
    unfolding v k_def[symmetric] by (simp add: powr_diff)
  have "real_of_int (rne y) * 2 powr real_of_int (k - 52)
      \<le> real_of_int (2 ^ 53) * 2 powr real_of_int (k - 52)"
    using m2 by (intro mult_right_mono) (simp_all only: of_int_le_iff powr_ge_zero)
  then show "val (round_double p q) \<le> 2 powr real_of_int (binade p q + 1)"
    unfolding v k_def[symmetric] by (simp add: powr_diff powr_add)
qed

lemma round_double_mono_pos:
  assumes "0 < p" "0 < q" "0 < p'" "0 < q'"
    and le: "real_of_int p / real_of_int q \<le> real_of_int p' / real_of_int q'"
  shows "val (round_double p q) \<le> val (round_double p' q')"
proof -
  define k where "k = binade p q"
  define k' where "k' = binade p' q'"
  have kk: "k \<le> k'"
    unfolding k_def k'_def
    using binade_le[OF le binade_correct(1)[OF assms(1,2)] binade_correct(2)[OF assms(3,4)]] .
  show ?thesis
  proof (cases "k = k'")
    case True
    have "real_of_int p / real_of_int q * 2 powr (- real_of_int (k - 52))
        \<le> real_of_int p' / real_of_int q' * 2 powr (- real_of_int (k - 52))"
      using le by (intro mult_right_mono) simp_all
    then have "rne (real_of_int p / real_of_int q * 2 powr (- real_of_int (k - 52)))
        \<le> rne (real_of_int p' / real_of_int q' * 2 powr (- real_of_int (k - 52)))"
      by (rule rne_mono)
    then have "real_of_int (rne (real_of_int p / real_of_int q * 2 powr (- real_of_int (k - 52))))
          * 2 powr real_of_int (k - 52)
        \<le> real_of_int (rne (real_of_int p' / real_of_int q' * 2 powr (- real_of_int (k - 52))))
          * 2 powr real_of_int (k - 52)"
      by (intro mult_right_mono) (simp_all only: of_int_le_iff powr_ge_zero)
    then show ?thesis
      unfolding round_double_val[OF assms(1,2)] round_double_val[OF assms(3,4)]
        k_def[symmetric] k'_def[symmetric] True[symmetric] .
  next
    case False
    then have "real_of_int (k + 1) \<le> real_of_int k'" using kk by simp
    then have "2 powr real_of_int (k + 1) \<le> 2 powr real_of_int k'"
      by (intro powr_mono) simp_all
    then show ?thesis
      using round_double_range(2)[OF assms(1,2)] round_double_range(1)[OF assms(3,4)]
      unfolding k_def k'_def by linarith
  qed
qed

lemma round_double_nonneg:
  assumes "0 \<le> p" and "0 < q"
  shows "0 \<le> val (round_double p q)" and "0 \<le> fst (round_double p q)"
proof -
  show v: "0 \<le> val (round_double p q)"
  proof (cases "p = 0")
    case True
    then show ?thesis by (simp add: round_double_def val_def)
  next
    case False
    then have "0 < p" using assms(1) by simp
    then show ?thesis
      using round_double_range(1)[OF _ assms(2), of p] powr_ge_zero[of 2 "real_of_int (binade p q)"]
      by linarith
  qed
  obtain m e where me: "round_double p q = (m, e)" by (cases "round_double p q")
  have "0 \<le> real_of_int m * 2 powr real_of_int e" using v by (simp add: me val_def)
  then have "0 \<le> real_of_int m" by (simp add: zero_le_mult_iff)
  then show "0 \<le> fst (round_double p q)" by (simp add: me)
qed

lemma round_double_mono:
  assumes "0 \<le> p" "0 < q" "0 \<le> p'" "0 < q'"
    and le: "real_of_int p / real_of_int q \<le> real_of_int p' / real_of_int q'"
  shows "val (round_double p q) \<le> val (round_double p' q')"
proof (cases "p = 0")
  case True
  then have "val (round_double p q) = 0" by (simp add: round_double_def val_def)
  then show ?thesis using round_double_nonneg(1)[OF assms(3,4)] by simp
next
  case False
  then have p: "0 < p" using assms(1) by simp
  have "0 < real_of_int p / real_of_int q" using p assms(2) by simp
  then have "0 < real_of_int p' / real_of_int q'" using le by linarith
  then have "0 < p'" using assms(3,4) by (cases "p' = 0") simp_all
  then show ?thesis using round_double_mono_pos[OF p assms(2) _ assms(4) le] by simp
qed

lemma exact_ratio:
  "real_of_int (c * m * 2 ^ nat e) / real_of_int (2 ^ nat (- e)) = real_of_int c * val (m, e)"
proof (cases "0 \<le> e")
  case True
  then have n: "nat (- e) = 0" by simp
  show ?thesis by (simp add: n val_def two_powr_nat'[OF True])
next
  case False
  then have n: "nat e = 0" and pos: "0 \<le> - e" by simp_all
  have "2 powr real_of_int e = 1 / 2 ^ nat (- e)"
    using two_powr_nat'[OF pos] two_powr_neg[of "- real_of_int e"] by simp
  then show ?thesis by (simp add: n val_def)
qed

lemma float_mul_100_mono:
  assumes "0 \<le> fst x" and "0 \<le> fst y" and "val x \<le> val y"
  shows "val (float_mul_100 x) \<le> val (float_mul_100 y)"
proof -
  obtain m e where x: "x = (m, e)" by (cases x)
  obtain m' e' where y: "y = (m', e')" by (cases y)
  have m: "0 \<le> 100 * m * 2 ^ nat e" "0 \<le> 100 * m' * 2 ^ nat e'"
    using assms(1,2) by (simp_all add: x y)
  have q: "(0::int) < 2 ^ nat (- e)" "(0::int) < 2 ^ nat (- e')" by simp_all
  have le: "real_of_int (100 * m * 2 ^ nat e) / real_of_int (2 ^ nat (- e))
      \<le> real_of_int (100 * m' * 2 ^ nat e') / real_of_int (2 ^ nat (- e'))"
    using assms(3) by (simp only: exact_ratio x y)
  show ?thesis
    using round_double_mono[OF m(1) q(1) m(2) q(2) le]
    by (simp add: float_mul_100_def x y)
qed

lemma float_mul_100_nonneg:
  assumes "0 \<le> fst x"
  shows "0 \<le> fst (float_mul_100 x)"
proof -
  obtain m e where x: "x = (m, e)" by (cases x)
  have m: "0 \<le> 100 * m * 2 ^ nat e" using assms by (simp add: x)
  have q: "(0::int) < 2 ^ nat (- e)" by simp
  show ?thesis
    using round_double_nonneg(2)[OF m q] by (simp add: float_mul_100_def x)
qed

lemma float_int_floor: "float_int x = \<lfloor>val x\<rfloor>"
proof -
  obtain m e where x: "x = (m, e)" by (cases x)
  have "\<lfloor>real_of_int (1 * m * 2 ^ nat e) / real_of_int (2 ^ nat (- e))\<rfloor>
      = (1 * m * 2 ^ nat e) div 2 ^ nat (- e)"
    by (rule floor_divide_of_int_eq)
  then show ?thesis
    by (simp only: exact_ratio) (simp add: float_int_def x)
qed

lemma progress_pct_mono:
  assumes "1 \<le> i" and "i \<le> j" and "0 < n"
  shows "progress_pct i n \<le> progress_pct j n"
proof -
  have p: "0 \<le> int i - 1" "0 \<le> int j - 1" "0 < int n" using assms by simp_all
  have le: "real_of_int (int i - 1) / real_of_int (int n)
      \<le> real_of_int (int j - 1) / real_of_int (int n)"
    using assms by (simp add: divide_right_mono)
  have d: "val (float_div (int i - 1) (int n)) \<le> val (float_div (int j - 1) (int n))"
    unfolding float_div_def by (rule round_double_mono[OF p(1) p(3) p(2) p(3) le])
  have n1: "0 \<le> fst (float_div (int i - 1) (int n))"
    and n2: "0 \<le> fst (float_div (int j - 1) (int n))"
    unfolding float_div_def
    by (rule round_double_nonneg(2)[OF p(1) p(3)], rule round_double_nonneg(2)[OF p(2) p(3)])
  have "val (float_mul_100 (float_div (int i - 1) (int n)))
      \<le> val (float_mul_100 (float_div (int j - 1) (int n)))"
    by (rule float_mul_100_mono[OF n1 n2 d])
  then show ?thesis
    unfolding progress_pct_def float_int_floor by (rule floor_mono)
qed

lemma progress_pct_le_100:
  assumes "1 \<le> i" and "i \<le> n"
  shows "progress_pct i n \<le> 100"
proof -
  have n: "0 < n" using assms by simp
  have p: "0 \<le> int i - 1" "0 < int n" "(0::int) \<le> 1" "(0::int) < 1" using assms by simp_all
  have le: "real_of_int (int i - 1) / real_of_int (int n) \<le> real_of_int 1 / real_of_int 1"
    using assms by simp
  have d: "val (float_div (int i - 1) (int n)) \<le> val (float_div 1 1)"
    unfolding float_div_def by (rule round_double_mono[OF p(1) p(2) p(3) p(4) le])
  have n1: "0 \<le> fst (float_div (int i - 1) (int n))"
    unfolding float_div_def by (rule round_double_nonneg(2)[OF p(1) p(2)])
  have n2: "0 \<le> fst (float_div 1 1)"
    unfolding float_div_def by (rule round_double_nonneg(2)[OF p(3) p(4)])
  have "val (float_mul_100 (float_div (int i - 1) (int n)))
      \<le> val (float_mul_100 (float_div 1 1))"
    by (rule float_mul_100_mono[OF n1 n2 d])
  then have "progress_pct i n \<le> float_int (float_mul_100 (float_div 1 1))"
    unfolding progress_pct_def float_int_floor by (rule floor_mono)
  also have "float_int (float_mul_100 (float_div 1 1)) = 100" by code_simp
  finally show ?thesis .
qed

lemma progress_pct_first: "0 < n \<Longrightarrow> progress_pct 1 n = 0"
  by (simp add: progress_pct_def float_div_def round_double_def float_mul_100_def float_int_def)

lemma no_progress_in_jobs: "filter is_progress (map Job events) = []"
  by (induction events) simp_all

lemma no_progress_in_tagger: "filter is_progress (map Tagger events) = []"
  by (induction events) simp_all

lemma chapter_step_progress:
  "filter is_progress (chapter_step dv je te p i ch)
     = [Put (Progress (progress_pct i (length (chapters p))))]"
  by (simp add: chapter_step_def Let_def no_progress_in_jobs no_progress_in_tagger
      split: prod.splits)

lemma chapter_loop_progress:
  "filter is_progress (chapter_loop dv je te p i chs)
     = map (\<lambda>k. Put (Progress (progress_pct k (length (chapters p))))) [i..<i + length chs]"
proof (induction chs arbitrary: i)
  case Nil
  then show ?case by simp
next
  case (Cons c chs)
  have "[i..<i + length (c # chs)] = i # [Suc i..<i + length (c # chs)]"
    by (rule upt_conv_Cons) simp
  then have "[i..<i + length (c # chs)] = i # [Suc i..<Suc i + length chs]"
    by simp
  then show ?case
    by (simp only: chapter_loop.simps filter_append chapter_step_progress Cons.IH[of "i + 1"])
      simp
qed

lemma progress_events:
  "filter is_progress (generate_ebook_thread dv je te p)
     = map (\<lambda>k. Put (Progress (progress_pct k (length (chapters p)))))
         [1..<1 + length (chapters p)]
       @ [Put (Progress 100)]"
  by (simp add: generate_ebook_thread_def chapter_loop_progress)

lemma progress_values_sorted:
  "sorted (map (\<lambda>k. progress_pct k n) [1..<1 + n] @ [100])"
proof -
  have "sorted_wrt (\<lambda>x y. progress_pct x n \<le> progress_pct y n) [1..<1 + n]"
  proof (rule sorted_wrt_mono_rel[where P = "(\<le>)"])
    fix x y assume xy: "x \<in> set [1..<1 + n]" "y \<in> set [1..<1 + n]" "x \<le> y"
    then have "1 \<le> x" and "0 < n" by auto
    then show "progress_pct x n \<le> progress_pct y n"
      using xy(3) by (intro progress_pct_mono)
  next
    show "sorted_wrt (\<le>) [1..<1 + n]" by (rule sorted_upt)
  qed
  then have a: "sorted (map (\<lambda>k. progress_pct k n) [1..<1 + n])"
    by (simp only: sorted_map)
  have b: "\<forall>x\<in>set (map (\<lambda>k. progress_pct k n) [1..<1 + n]). x \<le> 100"
    using progress_pct_le_100 by auto
  show ?thesis using a b by (simp add: sorted_append)
qed

lemma rne_error: "\<bar>real_of_int (rne y) - y\<bar> \<le> 1 / 2"
proof -
  have "real_of_int \<lfloor>y\<rfloor> \<le> y" "y < real_of_int \<lfloor>y\<rfloor> + 1" by linarith+
  then show ?thesis by (auto simp: rne_def Let_def)
qed

lemma round_double_error:
  assumes "0 < p" and "0 < q"
  shows "\<bar>val (round_double p q) - real_of_int p / real_of_int q\<bar>
       \<le> real_of_int p / real_of_int q * (1 / 2 ^ 53)"
proof -
  define x where "x = real_of_int p / real_of_int q"
  define w where "w = 2 powr real_of_int (binade p q - 52)"
  define y where "y = x * 2 powr (- real_of_int (binade p q - 52))"
  have w: "0 < w" by (simp add: w_def)
  have yw: "y * w = x" by (simp add: y_def w_def flip: powr_add)
  have v: "val (round_double p q) = real_of_int (rne y) * w"
    unfolding y_def w_def x_def by (rule round_double_val[OF assms])
  have "\<bar>real_of_int (rne y) * w - y * w\<bar> = \<bar>real_of_int (rne y) - y\<bar> * w"
    using w by (simp add: abs_mult flip: left_diff_distrib)
  also have "\<dots> \<le> 1 / 2 * w"
    using w by (intro mult_right_mono rne_error) simp
  finally have e: "\<bar>val (round_double p q) - x\<bar> \<le> w / 2" by (simp add: v yw)
  have "w = 2 powr real_of_int (binade p q) * (1 / 2 ^ 52)"
    by (simp add: w_def powr_diff)
  also have "\<dots> \<le> x * (1 / 2 ^ 52)"
    unfolding x_def by (intro mult_right_mono binade_correct(1)[OF assms]) simp
  finally have "w / 2 \<le> x * (1 / 2 ^ 53)" by simp
  then show ?thesis using e unfolding x_def by linarith
qed

lemma round_double_pos:
  assumes "0 < p" and "0 < q"
  shows "0 < val (round_double p q)" and "0 < fst (round_double p q)"
proof -
  show v: "0 < val (round_double p q)"
    using round_double_range(1)[OF assms] powr_gt_zero[of 2 "real_of_int (binade p q)"]
    by linarith
  obtain m e where me: "round_double p q = (m, e)" by (cases "round_double p q")
  have "0 < real_of_int m * 2 powr real_of_int e" using v by (simp add: me val_def)
  then have "0 < real_of_int m" by (simp add: zero_less_mult_iff)
  then show "0 < fst (round_double p q)" by (simp add: me)
qed

lemma float_mul_100_error:
  assumes "0 < fst x"
  shows "\<bar>val (float_mul_100 x) - 100 * val x\<bar> \<le> 100 * val x * (1 / 2 ^ 53)"
proof -
  obtain m e where x: "x = (m, e)" by (cases x)
  have m: "0 < 100 * m * 2 ^ nat e" using assms by (simp add: x)
  have q: "(0::int) < 2 ^ nat (- e)" by simp
  have "\<bar>val (round_double (100 * m * 2 ^ nat e) (2 ^ nat (- e)))
          - real_of_int (100 * m * 2 ^ nat e) / real_of_int (2 ^ nat (- e))\<bar>
       \<le> real_of_int (100 * m * 2 ^ nat e) / real_of_int (2 ^ nat (- e)) * (1 / 2 ^ 53)"
    by (rule round_double_error[OF m q])
  then have "\<bar>val (round_double (100 * m * 2 ^ nat e) (2 ^ nat (- e)))
          - real_of_int 100 * val (m, e)\<bar>
       \<le> real_of_int 100 * val (m, e) * (1 / 2 ^ 53)"
    by (simp only: exact_ratio)
  then show ?thesis by (simp add: float_mul_100_def x)
qed

lemma progress_value_error:
  assumes "0 < a" and "a < n"
  shows "\<bar>val (float_mul_100 (float_div a n)) - 100 * (real_of_int a / real_of_int n)\<bar>
       < 1 / 2 ^ 44"
proof -
  define x where "x = real_of_int a / real_of_int n"
  define r1 where "r1 = val (float_div a n)"
  define r2 where "r2 = val (float_mul_100 (float_div a n))"
  define \<delta> where "\<delta> = (1::real) / 2 ^ 53"
  have n: "0 < n" using assms by simp
  have x: "0 < x" "x < 1" using assms n by (simp_all add: x_def)
  have d: "0 < \<delta>" "\<delta> < 1" by (simp_all add: \<delta>_def)
  have e1: "\<bar>r1 - x\<bar> \<le> x * \<delta>"
    unfolding r1_def x_def \<delta>_def float_div_def by (rule round_double_error[OF assms(1) n])
  have pos: "0 < fst (float_div a n)"
    unfolding float_div_def by (rule round_double_pos(2)[OF assms(1) n])
  have e2: "\<bar>r2 - 100 * r1\<bar> \<le> 100 * r1 * \<delta>"
    unfolding r2_def r1_def \<delta>_def by (rule float_mul_100_error[OF pos])
  have r1: "x - x * \<delta> \<le> r1" "r1 \<le> x + x * \<delta>" using e1 by linarith+
  have xd: "x * \<delta> < \<delta>" using x d by simp
  have xx: "x * \<delta> < x" using x d by simp
  have r1b: "0 < r1" "r1 < 2"
    using r1 xd xx x d by linarith+
  have r1d: "r1 * \<delta> < 2 * \<delta>" using r1b d by simp
  have r2: "100 * r1 - 100 * r1 * \<delta> \<le> r2" "r2 \<le> 100 * r1 + 100 * r1 * \<delta>"
    using e2 by linarith+
  have up: "r2 - 100 * x < 300 * \<delta>" using r1 r2 r1d xd by linarith
  have lo: "- (300 * \<delta>) < r2 - 100 * x" using r1 r2 r1d xd by linarith
  have "\<bar>r2 - 100 * x\<bar> < 300 * \<delta>" using up lo by linarith
  also have "\<dots> < 1 / 2 ^ 44" by (simp add: \<delta>_def)
  finally show ?thesis unfolding r2_def x_def .
qed

lemma progress_pct_near_floor:
  assumes "1 \<le> i" and "i \<le> n" and "n \<le> 2 ^ 44"
  shows "(100 * (int i - 1)) div int n - 1 \<le> progress_pct i n"
    and "progress_pct i n \<le> (100 * (int i - 1)) div int n"
proof -
  define a where "a = int i - 1"
  define F where "F = (100 * a) div int n"
  define X where "X = 100 * (real_of_int a / real_of_int (int n))"
  define r where "r = val (float_mul_100 (float_div a (int n)))"
  have n: "0 < int n" using assms by simp
  have a: "0 \<le> a" "a < int n" using assms by (simp_all add: a_def)
  have pct: "progress_pct i n = \<lfloor>r\<rfloor>"
    by (simp add: progress_pct_def float_int_floor r_def a_def)
  have FX: "F = \<lfloor>X\<rfloor>"
    unfolding F_def X_def
    using floor_divide_of_int_eq[where ?'a = real, of "100 * a" "int n"] by simp
  have both: "F - 1 \<le> \<lfloor>r\<rfloor> \<and> \<lfloor>r\<rfloor> \<le> F"
  proof (cases "a = 0")
    case True
    have "progress_pct 1 n = 0"
      using assms by (intro progress_pct_first) simp
    moreover have "i = 1" using True assms by (simp add: a_def)
    ultimately have "\<lfloor>r\<rfloor> = 0" using pct by simp
    then show ?thesis by (simp add: F_def True)
  next
    case False
    then have apos: "0 < a" using a by simp
    have err: "\<bar>r - X\<bar> < 1 / 2 ^ 44"
      unfolding r_def X_def by (rule progress_value_error[OF apos a(2)])
    have lo: "real_of_int F - 1 \<le> r"
    proof -
      have "real_of_int F \<le> X" unfolding FX by linarith
      moreover have "(1::real) / 2 ^ 44 < 1" by simp
      ultimately show ?thesis using err by linarith
    qed
    have rem: "100 * a = F * int n + (100 * a) mod int n"
      unfolding F_def by simp
    have "(100 * a) mod int n \<le> int n - 1"
      using n pos_mod_bound[of "int n" "100 * a"] by linarith
    then have "100 * a \<le> F * int n + int n - 1" using rem by linarith
    then have "real_of_int (100 * a) \<le> real_of_int (F * int n + int n - 1)"
      by (simp only: of_int_le_iff)
    then have "100 * real_of_int a \<le> (real_of_int F + 1) * real n - 1"
      by (simp add: algebra_simps)
    then have "X * real n \<le> (real_of_int F + 1 - 1 / real n) * real n"
      using n by (simp add: X_def algebra_simps)
    then have Xle: "X \<le> real_of_int F + 1 - 1 / real n"
      using n by simp
    have "real n \<le> 2 ^ 44" using assms(3) by (metis of_nat_le_iff of_nat_numeral of_nat_power)
    then have "1 / 2 ^ 44 \<le> 1 / real n"
      using n by (simp add: frac_le)
    then have hi: "r < real_of_int F + 1"
      using err Xle by linarith
    have "F - 1 \<le> \<lfloor>r\<rfloor>" using lo by (simp add: le_floor_iff)
    moreover have "\<lfloor>r\<rfloor> \<le> F" using hi by (simp only: floor_le_iff)
    ultimately show ?thesis by simp
  qed
  show "(100 * (int i - 1)) div int n - 1 \<le> progress_pct i n"
    using both unfolding pct F_def a_def by simp
  show "progress_pct i n \<le> (100 * (int i - 1)) div int n"
    using both unfolding pct F_def a_def by simp
qed

text \<open>
  C6 on the code. In a batch of 50 chapters the first event of the loop body for
  chapter 30 is progress 57, where the floor of \<open>((30 - 1) / 50) * 100\<close> is 58: the
  quotient 29/50 is rounded to a double below 0.58, its product with 100 is rounded to
  the double just below 58, and \<open>int\<close> truncates it. The last progress event of the
  batch is 100.
\<close>

theorem progress_before_chapter_30_of_50:
  "progress_pct 30 50 = 57
   \<and> hd (chapter_step ascii_digit every_job_completes every_tagging_works (book_of 50) 30
           one_chapter) = Put (Progress 57)
   \<and> \<lfloor>((30 - 1) / 50) * 100 :: real\<rfloor> = 58
   \<and> last (filter is_progress
             (generate_ebook_thread ascii_digit every_job_completes every_tagging_works
                (book_of 50))) = Put (Progress 100)"
proof -
  have p: "progress_pct 30 50 = 57" by code_simp
  have len: "length (chapters (book_of 50)) = 50" by (simp add: book_of_def)
  have h: "hd (chapter_step ascii_digit every_job_completes every_tagging_works (book_of 50) 30
           one_chapter) = Put (Progress 57)"
    by (simp add: chapter_step_def Let_def len p)
  have f: "\<lfloor>((30 - 1) / 50) * 100 :: real\<rfloor> = 58" by simp
  have l: "last (filter is_progress
             (generate_ebook_thread ascii_digit every_job_completes every_tagging_works
                (book_of 50))) = Put (Progress 100)"
    by (simp add: generate_ebook_thread_def)
  show ?thesis by (intro conjI p h f l)
qed

end
